theory Spec2Isabelle
  imports Main "HOL-Library.Sublist"
begin

section \<open>Text, buffers and objects\<close>

text \<open>
  A JavaScript string is an Isabelle \<^typ>\<open>string\<close>, one \<^typ>\<open>char\<close> per code unit, and a
  Buffer is the list of its bytes, a \<^typ>\<open>string\<close> as well.  \<^verbatim>\<open>Buffer.from(str)\<close>,
  \<^verbatim>\<open>buf.toString()\<close> and reading or writing a text file as \<^verbatim>\<open>'utf8'\<close> convert between
  the two by UTF-8; the model takes them as the identity, which is exact for ASCII text.
\<close>

definition CRLF :: string where
  "CRLF = [CHR 0x0D, CHR 0x0A]"

definition LF :: char where
  "LF = CHR 0x0A"

definition SQ :: char where
  "SQ = CHR 0x27"

definition BSL :: char where
  "BSL = CHR 0x5C"

text \<open>\<^verbatim>\<open>str.endsWith(suf)\<close>.\<close>

definition endsWith :: "string \<Rightarrow> string \<Rightarrow> bool" where
  "endsWith str suf = suffix suf str"

text \<open>
  A plain object used as a dictionary: its own properties and its prototype slot.  On an
  object created by \<^verbatim>\<open>{}\<close> the key \<^verbatim>\<open>__proto__\<close> is an accessor: assigning a string to it
  does nothing, assigning an object to it replaces the prototype, and neither creates an own
  property; reading it returns the prototype.
\<close>

record 'v jsobj =
  own :: "string \<rightharpoonup> 'v"
  proto :: "'v option"

definition emptyObj :: "'v jsobj" where
  "emptyObj = \<lparr>own = Map.empty, proto = None\<rparr>"

definition setPrim :: "string \<Rightarrow> 'v \<Rightarrow> 'v jsobj \<Rightarrow> 'v jsobj" where
  "setPrim k v ob = (if k = ''__proto__'' then ob else ob\<lparr>own := (own ob)(k \<mapsto> v)\<rparr>)"

definition setObj :: "string \<Rightarrow> 'v \<Rightarrow> 'v jsobj \<Rightarrow> 'v jsobj" where
  "setObj k v ob =
     (if k = ''__proto__'' then ob\<lparr>proto := Some v\<rparr> else ob\<lparr>own := (own ob)(k \<mapsto> v)\<rparr>)"

definition getProp :: "'v jsobj \<Rightarrow> string \<Rightarrow> 'v option" where
  "getProp ob k = (if k = ''__proto__'' then proto ob else own ob k)"

section \<open>cgiNode.js: module state\<close>

text \<open>A body field is a string, or an array of strings (what \<^verbatim>\<open>querystring.parse\<close> builds
  for a repeated key).\<close>

datatype field = Str string | Arr "string list"

text \<open>The descriptor stored in \<^verbatim>\<open>_FILES\<close>: \<^verbatim>\<open>name\<close>, \<^verbatim>\<open>type\<close> (undefined when the
  part has no Content-Type header), \<^verbatim>\<open>size\<close>, \<^verbatim>\<open>tmp_name\<close>, \<^verbatim>\<open>error\<close>.\<close>

record fileDescriptor =
  fd_name :: string
  fd_type :: "string option"
  fd_size :: nat
  tmp_name :: string
  fd_error :: nat

text \<open>A file on disk: its bytes and its modification time in milliseconds.\<close>

record diskFile =
  bytes :: string
  mtimeMs :: nat

text \<open>
  The module's variables (\<^verbatim>\<open>_GET\<close>, \<^verbatim>\<open>_POST\<close>, \<^verbatim>\<open>_FILES\<close>, \<^verbatim>\<open>_SERVER\<close>,
  \<^verbatim>\<open>sessionId\<close>, \<^verbatim>\<open>headersSent\<close>, \<^verbatim>\<open>headerBuffer\<close>, \<^verbatim>\<open>bodyBuffer\<close>) together with
  what the process acts on: the bytes written to standard output, the file system, and
  whether \<^verbatim>\<open>process.exit\<close> was called.  \<^verbatim>\<open>_SESSION\<close> is held by its JSON text, the value of
  \<^verbatim>\<open>JSON.stringify(_SESSION)\<close>.
\<close>

record cgi =
  GET :: "string \<rightharpoonup> string"
  POST :: "field jsobj"
  FILES :: "fileDescriptor jsobj"
  SERVER :: "string \<rightharpoonup> string"
  SESSION_json :: string
  sessionId :: "string option"
  headersSent :: bool
  headerBuffer :: string
  bodyBuffer :: string
  stdout :: string
  fs :: "string \<rightharpoonup> diskFile"
  exited :: bool

definition writeFileSync :: "string \<Rightarrow> string \<Rightarrow> nat \<Rightarrow> cgi \<Rightarrow> cgi" where
  "writeFileSync p data now st = st\<lparr>fs := (fs st)(p \<mapsto> \<lparr>bytes = data, mtimeMs = now\<rparr>)\<rparr>"

text \<open>The module's variables as lines 5 to 15 of cgiNode.js initialise them, nothing written
  yet and an empty disk.\<close>

definition initial :: cgi where
  "initial =
     \<lparr>GET = Map.empty, POST = emptyObj, FILES = emptyObj, SERVER = Map.empty,
      SESSION_json = ''{}'', sessionId = None, headersSent = False, headerBuffer = [],
      bodyBuffer = [], stdout = [], fs = Map.empty, exited = False\<rparr>"

section \<open>cgiNode.js: the response\<close>

definition header :: "string \<Rightarrow> cgi \<Rightarrow> cgi" where
  "header str st =
     (if headersSent st then st
      else st\<lparr>headerBuffer := headerBuffer st @ (if endsWith str CRLF then str else str @ CRLF)\<rparr>)"

definition echo :: "string \<Rightarrow> cgi \<Rightarrow> cgi" where
  "echo str st = st\<lparr>bodyBuffer := bodyBuffer st @ str\<rparr>"

text \<open>\<^verbatim>\<open>sessionDir\<close> is \<^verbatim>\<open>path.join(__dirname, 'sessions')\<close>; the directory of the
  module is a parameter.\<close>

definition sessionFile :: "string \<Rightarrow> string \<Rightarrow> string" where
  "sessionFile sessionDir sid = sessionDir @ ''/session_'' @ sid @ ''.json''"

definition saveSession :: "string \<Rightarrow> nat \<Rightarrow> cgi \<Rightarrow> cgi" where
  "saveSession sessionDir now st =
     (case sessionId st of
        None \<Rightarrow> st
      | Some sid \<Rightarrow>
          if sid = [] then st
          else writeFileSync (sessionFile sessionDir sid) (SESSION_json st) now st)"

text \<open>\<^verbatim>\<open>exit(msg)\<close>: lines 32 to 43 of cgiNode.js, statement by statement.\<close>

definition exit :: "string \<Rightarrow> string \<Rightarrow> nat \<Rightarrow> cgi \<Rightarrow> cgi" where
  "exit sessionDir msg now st =
     (let st1 = (if \<not> headersSent st
                 then st\<lparr>stdout := stdout st @ headerBuffer st @ CRLF, headersSent := True\<rparr>
                 else st);
          st2 = (if msg \<noteq> [] then st1\<lparr>stdout := stdout st1 @ msg\<rparr> else st1);
          st3 = st2\<lparr>stdout := stdout st2 @ bodyBuffer st2\<rparr>;
          st4 = saveSession sessionDir now st3
      in st4\<lparr>exited := True\<rparr>)"

section \<open>cgiNode.js: html_escape\<close>

text \<open>The object literal of the replacer, and the character class \<^verbatim>\<open>[&<>"']\<close>.\<close>

definition entities :: "(char \<times> string) list" where
  \<open>entities =
     [(CHR ''&'', ''&amp;''), (CHR ''<'', ''&lt;''), (CHR ''>'', ''&gt;''),
      (CHR 0x22, ''&quot;''), (SQ, ''&#039;'')]\<close>

definition escapeClass :: "char list" where
  \<open>escapeClass = [CHR ''&'', CHR ''<'', CHR ''>'', CHR 0x22, SQ]\<close>

text \<open>\<^verbatim>\<open>str.replace(/[...]/g, f)\<close> for a class of single characters: every character of the
  class is replaced by what \<^verbatim>\<open>f\<close> returns for it, left to right.\<close>

primrec replaceClass :: "char list \<Rightarrow> (char \<Rightarrow> string) \<Rightarrow> string \<Rightarrow> string" where
  "replaceClass cls f [] = []"
| "replaceClass cls f (c # cs) =
     (if c \<in> set cls then f c @ replaceClass cls f cs else c # replaceClass cls f cs)"

definition html_escape :: "string \<Rightarrow> string" where
  "html_escape str =
     replaceClass escapeClass
       (\<lambda>c. case map_of entities c of Some e \<Rightarrow> e | None \<Rightarrow> ''undefined'') str"

text \<open>The mapping as section 8 of the specification words it.\<close>

definition entityOf :: "char \<Rightarrow> string" where
  \<open>entityOf c =
     (if c = CHR ''&'' then ''&amp;''
      else if c = CHR ''<'' then ''&lt;''
      else if c = CHR ''>'' then ''&gt;''
      else if c = CHR 0x22 then ''&quot;''
      else if c = CHR 0x27 then ''&#039;''
      else [c])\<close>

section \<open>cgiNode.js: parseCookies\<close>

text \<open>\<^verbatim>\<open>str.split(c)\<close> for a one-character separator: the pieces between the separators,
  at least one piece.\<close>

primrec splitOn :: "char \<Rightarrow> string \<Rightarrow> string list" where
  "splitOn c [] = [[]]"
| "splitOn c (x # xs) =
     (if x = c then [] # splitOn c xs
      else (case splitOn c xs of [] \<Rightarrow> [[x]] | y # ys \<Rightarrow> (x # y) # ys))"

text \<open>\<^verbatim>\<open>str.trim()\<close>: white space and line terminators among the code units below 256 are
  tab, line feed, vertical tab, form feed, carriage return, space and no-break space.\<close>

definition isSpace :: "char \<Rightarrow> bool" where
  "isSpace c \<longleftrightarrow> c \<in> set [CHR 0x09, CHR 0x0A, CHR 0x0B, CHR 0x0C, CHR 0x0D, CHR 0x20, CHR 0xA0]"

definition trimStart :: "string \<Rightarrow> string" where
  "trimStart s = dropWhile isSpace s"

definition trimEnd :: "string \<Rightarrow> string" where
  "trimEnd s = rev (dropWhile isSpace (rev s))"

definition trim :: "string \<Rightarrow> string" where
  "trim s = trimEnd (trimStart s)"

text \<open>The body of the \<^verbatim>\<open>forEach\<close>: \<^verbatim>\<open>[key, value]\<close> are the first two pieces of the split,
  \<^verbatim>\<open>value\<close> undefined when there is one piece only; an empty string and undefined are falsy.\<close>

definition cookieEntry :: "string \<Rightarrow> string jsobj \<Rightarrow> string jsobj" where
  "cookieEntry cookie cookies =
     (case splitOn (CHR ''='') (trim cookie) of
        key # value # _ \<Rightarrow>
          if key \<noteq> [] \<and> value \<noteq> [] then setPrim key value cookies else cookies
      | _ \<Rightarrow> cookies)"

definition cookieStr :: "cgi \<Rightarrow> string" where
  "cookieStr st = (case SERVER st ''HTTP_COOKIE'' of None \<Rightarrow> [] | Some s \<Rightarrow> s)"

definition parseCookies :: "cgi \<Rightarrow> string jsobj" where
  "parseCookies st =
     foldl (\<lambda>cookies cookie. cookieEntry cookie cookies) emptyObj
       (splitOn (CHR '';'') (cookieStr st))"

text \<open>Key and value of an entry read off its text: the key is the trimmed entry up to its
  first \<^verbatim>\<open>=\<close>, the value is what follows that \<^verbatim>\<open>=\<close> up to the next one.\<close>

definition cookieKey :: "string \<Rightarrow> string" where
  "cookieKey cookie = takeWhile (\<lambda>c. c \<noteq> CHR ''='') (trim cookie)"

definition cookieValue :: "string \<Rightarrow> string" where
  "cookieValue cookie =
     takeWhile (\<lambda>c. c \<noteq> CHR ''='') (drop (Suc (length (cookieKey cookie))) (trim cookie))"


section \<open>Node: querystring.parse\<close>

text \<open>
  \<^verbatim>\<open>querystring.parse\<close> belongs to Node, not to this repository; it is modelled as Node
  documents and implements it.  The string is cut at every \<^verbatim>\<open>&\<close>; an empty piece is
  skipped; a piece is cut at its first \<^verbatim>\<open>=\<close> into key and value (the value empty when
  there is none); in both, \<^verbatim>\<open>+\<close> becomes a space and every \<^verbatim>\<open>%\<close> followed by two hex digits
  becomes the byte they denote, any other \<^verbatim>\<open>%\<close> staying as it is.  A key met for the first
  time gets the value as a string; met again, its value becomes the array of all values so far.
  Only the first 1000 pieces are read (\<^verbatim>\<open>maxKeys\<close>).  The result has no prototype, so that
  \<^verbatim>\<open>__proto__\<close> is a key like any other: an association list in order of first occurrence.
\<close>

definition isHex :: "char \<Rightarrow> bool" where
  "isHex c \<longleftrightarrow> c \<in> set ''0123456789abcdefABCDEF''"

definition unhex :: "char \<Rightarrow> nat" where
  "unhex c =
     (let n = of_char c
      in if 48 \<le> n \<and> n \<le> 57 then n - 48 else if 65 \<le> n \<and> n \<le> 70 then n - 55 else n - 87)"

fun unescapeBuffer :: "string \<Rightarrow> string" where
  "unescapeBuffer (c # h # l # rest) =
     (if c = CHR ''%'' \<and> isHex h \<and> isHex l
      then char_of (16 * unhex h + unhex l) # unescapeBuffer rest
      else c # unescapeBuffer (h # l # rest))"
| "unescapeBuffer s = s"

definition qsDecode :: "string \<Rightarrow> string" where
  "qsDecode s = unescapeBuffer (map (\<lambda>c. if c = CHR ''+'' then CHR '' '' else c) s)"

fun addKeyValue :: "(string \<times> field) list \<Rightarrow> string \<Rightarrow> string \<Rightarrow> (string \<times> field) list" where
  "addKeyValue [] key v = [(key, Str v)]"
| "addKeyValue ((k, cur) # obj) key v =
     (if k = key
      then (k, (case cur of Str c \<Rightarrow> Arr [c, v] | Arr vs \<Rightarrow> Arr (vs @ [v]))) # obj
      else (k, cur) # addKeyValue obj key v)"

definition qsPair :: "(string \<times> field) list \<Rightarrow> string \<Rightarrow> (string \<times> field) list" where
  "qsPair obj piece =
     (if piece = [] then obj
      else let key = takeWhile (\<lambda>c. c \<noteq> CHR ''='') piece;
               v = drop (Suc (length key)) piece
           in addKeyValue obj (qsDecode key) (qsDecode v))"

definition querystring_parse :: "string \<Rightarrow> (string \<times> field) list" where
  "querystring_parse qs = foldl qsPair [] (take 1000 (splitOn (CHR ''&'') qs))"

section \<open>cgiNode.js: parseUrlEncodedBody\<close>

text \<open>\<^verbatim>\<open>_POST[key] = parsed[key]\<close> for every key of the parsed object.  The keys are
  distinct, so the order of the \<^verbatim>\<open>for ... in\<close> does not matter.  A string assigned to
  \<^verbatim>\<open>__proto__\<close> is dropped, an array assigned to it becomes the prototype.\<close>

definition assignField :: "cgi \<Rightarrow> string \<times> field \<Rightarrow> cgi" where
  "assignField st kv =
     (case kv of
        (key, Str v) \<Rightarrow> st\<lparr>POST := setPrim key (Str v) (POST st)\<rparr>
      | (key, Arr vs) \<Rightarrow> st\<lparr>POST := setObj key (Arr vs) (POST st)\<rparr>)"

definition parseUrlEncodedBody :: "string \<Rightarrow> cgi \<Rightarrow> cgi" where
  "parseUrlEncodedBody buffer st = foldl assignField st (querystring_parse buffer)"

section \<open>exec.js: getCachePath\<close>

text \<open>\<^verbatim>\<open>buf.toString('base64')\<close>: three bytes give four characters of the alphabet, a
  rest of two bytes gives three characters and one \<^verbatim>\<open>=\<close>, a rest of one byte two
  characters and \<^verbatim>\<open>==\<close>.\<close>

definition b64alphabet :: string where
  "b64alphabet = ''ABCDEFGHIJKLMNOPQRSTUVWXYZabcdefghijklmnopqrstuvwxyz0123456789+/''"

definition b64 :: "nat \<Rightarrow> char" where
  "b64 n = b64alphabet ! (n mod 64)"

fun base64 :: "string \<Rightarrow> string" where
  "base64 (a # b # c # rest) =
     (let n = of_char a * 65536 + of_char b * 256 + of_char c
      in b64 (n div 262144) # b64 (n div 4096) # b64 (n div 64) # b64 n # base64 rest)"
| "base64 [a, b] =
     (let n = of_char a * 1024 + of_char b * 4
      in [b64 (n div 4096), b64 (n div 64), b64 n, CHR ''=''])"
| "base64 [a] =
     (let n = of_char a * 16
      in [b64 (n div 64), b64 n, CHR ''='', CHR ''=''])"
| "base64 [] = []"

text \<open>The four characters of a group of 24 bits, for the proofs about \<^const>\<open>base64\<close>.\<close>

definition quad :: "nat \<Rightarrow> string" where
  "quad n = [b64 (n div 262144), b64 (n div 4096), b64 (n div 64), b64 n]"

text \<open>\<^verbatim>\<open>.replace(/[/+=]/g, '_')\<close>, and \<^verbatim>\<open>path.join(CACHE_DIR, hash + '.cache.js')\<close>;
  \<^verbatim>\<open>CACHE_DIR\<close>, a normalised directory path, is a parameter.\<close>

definition cacheHash :: "string \<Rightarrow> string" where
  "cacheHash jssPath =
     replaceClass [CHR ''/'', CHR ''+'', CHR ''=''] (\<lambda>c. ''_'') (base64 jssPath)"

definition getCachePath :: "string \<Rightarrow> string \<Rightarrow> string" where
  "getCachePath CACHE_DIR jssPath = CACHE_DIR @ ''/'' @ cacheHash jssPath @ ''.cache.js''"

section \<open>exec.js: parseJSSBlocks\<close>

text \<open>\<^verbatim>\<open>str.includes(sub)\<close>.\<close>

definition str_includes :: "string \<Rightarrow> string \<Rightarrow> bool" where
  "str_includes str sub = sublist sub str"

text \<open>The first occurrence of \<^verbatim>\<open>pat\<close> in a string: the text before it and the text after
  it, or nothing when it does not occur.\<close>

fun findSub :: "string \<Rightarrow> string \<Rightarrow> (string \<times> string) option" where
  "findSub pat [] = (if pat = [] then Some ([], []) else None)"
| "findSub pat (c # cs) =
     (if prefix pat (c # cs) then Some ([], drop (length pat) (c # cs))
      else (case findSub pat cs of None \<Rightarrow> None | Some (before, after) \<Rightarrow> Some (c # before, after)))"

text \<open>\<^verbatim>\<open>JSON.stringify(str)\<close> of a string: the quote and the backslash are escaped, the
  control characters are written \<^verbatim>\<open>\b \t \n \f \r\<close> or \<^verbatim>\<open>\u00xx\<close> in lower-case hex, and
  every other character stands for itself.\<close>

definition hexDigit :: "nat \<Rightarrow> char" where
  "hexDigit n = ''0123456789abcdef'' ! (n mod 16)"

definition jsonChar :: "char \<Rightarrow> string" where
  "jsonChar c =
     (if c = CHR 0x22 then [BSL, CHR 0x22]
      else if c = BSL then [BSL, BSL]
      else if c = CHR 0x08 then [BSL, CHR ''b'']
      else if c = CHR 0x09 then [BSL, CHR ''t'']
      else if c = CHR 0x0A then [BSL, CHR ''n'']
      else if c = CHR 0x0C then [BSL, CHR ''f'']
      else if c = CHR 0x0D then [BSL, CHR ''r'']
      else if (of_char c :: nat) < 32
        then [BSL, CHR ''u'', CHR ''0'', CHR ''0'', hexDigit (of_char c div 16), hexDigit (of_char c)]
      else [c])"

definition JSON_stringify :: "string \<Rightarrow> string" where
  "JSON_stringify str = CHR 0x22 # concat (map jsonChar str) @ [CHR 0x22]"

text \<open>The block pushed for literal text: \<^verbatim>\<open>`echo(${JSON.stringify(html)});`\<close>.\<close>

definition echoBlock :: "string \<Rightarrow> string" where
  "echoBlock html = ''echo('' @ JSON_stringify html @ '');''"

text \<open>
  The loop over \<^verbatim>\<open>/<\?(.*?)\?>/gs\<close>.  A match starts at the first \<^verbatim>\<open><?\<close> at or after
  \<^verbatim>\<open>lastIndex\<close> and ends with the first \<^verbatim>\<open>?>\<close> that follows it; when that \<^verbatim>\<open><?\<close> is not
  closed, no later one is, and the loop ends.  The argument is \<^verbatim>\<open>content.slice(lastIndex)\<close>.
\<close>

function parseJSSBlocks :: "string \<Rightarrow> string list" where
  "parseJSSBlocks content =
     (case findSub ''<?'' content of
        None \<Rightarrow> (if content \<noteq> [] then [echoBlock content] else [])
      | Some (html, opened) \<Rightarrow>
          (case findSub ''?>'' opened of
             None \<Rightarrow> (if content \<noteq> [] then [echoBlock content] else [])
           | Some (code, rest) \<Rightarrow>
               (if html \<noteq> [] then [echoBlock html] else []) @ [trim code] @ parseJSSBlocks rest))"
  by pat_completeness auto
termination
proof (relation "measure length", goal_cases)
  case 1
  show ?case by simp
next
  case (2 content found html opened found' code rest)
  have shorter: "length after \<le> length s" if "findSub pat s = Some (before, after)"
    for pat s before after
    using that
    by (induction s arbitrary: before) (auto split: if_splits option.splits)
  have strictly: "length after < length s" if "findSub pat s = Some (before, after)" "pat \<noteq> []"
    for pat s before after
    using that
    by (induction s arbitrary: before) (auto split: if_splits option.splits)
  from 2 have "length opened < length content" "length rest < length opened"
    by (auto dest!: strictly)
  then show ?case by simp
qed

declare parseJSSBlocks.simps [simp del]

text \<open>\<^verbatim>\<open>blocks.join(sep)\<close>.\<close>

fun join :: "string \<Rightarrow> string list \<Rightarrow> string" where
  "join sep [] = []"
| "join sep [x] = x"
| "join sep (x # y # ys) = x @ sep @ join sep (y # ys)"

section \<open>exec.js: evaluateJSSwithCache\<close>

text \<open>A thrown \<^verbatim>\<open>Error\<close> object: its \<^verbatim>\<open>message\<close> and its \<^verbatim>\<open>stack\<close>.\<close>

datatype js_error = Error (message: string) (stack: string)

text \<open>
  What Node provides and the repository does not define.  \<^verbatim>\<open>vmRun filename fullScript\<close> is
  \<^verbatim>\<open>new vm.Script(fullScript, {filename})\<close> followed by \<^verbatim>\<open>script.runInContext(context)\<close>, and
  \<^verbatim>\<open>evalRun fullScript\<close> is \<^verbatim>\<open>eval(fullScript)\<close>: each throws, or returns with the output the
  script's calls of \<^verbatim>\<open>echo\<close> built, and may change the module state through the bindings
  it sees.  \<^verbatim>\<open>enoent call path\<close> is the error an \<^verbatim>\<open>fs\<close> call throws for a path that does not
  exist, \<^verbatim>\<open>dirnameError\<close> the one \<^verbatim>\<open>path.dirname\<close> throws for \<^verbatim>\<open>undefined\<close>, \<^verbatim>\<open>errorStack msg\<close>
  the stack trace of a \<^verbatim>\<open>new Error(msg)\<close> created by exec.js, \<^verbatim>\<open>env_DEBUG\<close> is
  \<^verbatim>\<open>process.env.DEBUG\<close>.
\<close>

record node =
  vmRun :: "string \<Rightarrow> string \<Rightarrow> cgi \<Rightarrow> (js_error + string) \<times> cgi"
  evalRun :: "string \<Rightarrow> cgi \<Rightarrow> (js_error + string) \<times> cgi"
  enoent :: "string \<Rightarrow> string \<Rightarrow> js_error"
  dirnameError :: js_error
  errorStack :: "string \<Rightarrow> string"
  env_DEBUG :: "string option"

text \<open>\<^verbatim>\<open>path.basename(p)\<close> on POSIX: trailing slashes are dropped, then the text after the
  last slash is kept.\<close>

definition basename :: "string \<Rightarrow> string" where
  "basename p =
     rev (takeWhile (\<lambda>c. c \<noteq> CHR ''/'') (dropWhile (\<lambda>c. c = CHR ''/'') (rev p)))"

text \<open>
  Lines 186 to 204: the script to run and the state after the lookup.  A missing source file
  makes \<^verbatim>\<open>fs.statSync\<close> throw.  \<^verbatim>\<open>fs.writeFileSync\<close> stamps the cache file with the time
  of the write, \<^verbatim>\<open>now\<close>.
\<close>

definition cachedFullScript ::
  "node \<Rightarrow> string \<Rightarrow> string \<Rightarrow> nat \<Rightarrow> cgi \<Rightarrow> js_error + (string \<times> cgi)" where
  "cachedFullScript nd CACHE_DIR jssPath now st =
     (case fs st jssPath of
        None \<Rightarrow> Inl (enoent nd ''stat'' jssPath)
      | Some source \<Rightarrow>
          let jssMtime = mtimeMs source;
              cachePath = getCachePath CACHE_DIR jssPath;
              useCache = (case fs st cachePath of
                            None \<Rightarrow> False
                          | Some cacheStat \<Rightarrow> mtimeMs cacheStat \<ge> jssMtime)
          in if useCache then Inr (bytes (the (fs st cachePath)), st)
             else let rawContent = bytes source;
                      blocks = parseJSSBlocks rawContent;
                      fullScript = join [LF] blocks
                  in Inr (fullScript, writeFileSync cachePath fullScript now st))"

text \<open>\<^verbatim>\<open>n.toString()\<close> for a natural number, and \<^verbatim>\<open>str.padStart(4)\<close>.\<close>

fun showNat :: "nat \<Rightarrow> string" where
  "showNat n = (if n < 10 then [char_of (48 + n)] else showNat (n div 10) @ [char_of (48 + n mod 10)])"

declare showNat.simps [simp del]

definition padStart4 :: "string \<Rightarrow> string" where
  "padStart4 s = replicate (4 - length s) (CHR '' '') @ s"

text \<open>The listing of lines 219 to 222: one \<^verbatim>\<open>div\<close> per line of the script.\<close>

definition numberedLine :: "nat \<Rightarrow> string \<Rightarrow> string" where
  \<open>numberedLine idx line =
     ''<div style="white-space: pre;"><span style="color:gray;">''
       @ padStart4 (showNat (idx + 1)) @ '':</span> '' @ html_escape line @ ''</div>''\<close>

definition numbered :: "string \<Rightarrow> string" where
  "numbered fullScript =
     concat (map (\<lambda>(idx, line). numberedLine idx line) (enumerate 0 (splitOn LF fullScript)))"

text \<open>The template literal of lines 224 to 231.\<close>

definition errorReport :: "js_error \<Rightarrow> string \<Rightarrow> string" where
  \<open>errorReport e fullScript =
     [LF] @ ''        <h2 style="color:#a00;">Script Error</h2>''
     @ [LF] @ ''        <pre><b>'' @ html_escape (message e) @ ''</b></pre>''
     @ [LF] @ ''        <h3>Stack Trace:</h3>''
     @ [LF] @ ''        <pre>'' @ html_escape (stack e) @ ''</pre>''
     @ [LF] @ ''        <h3>Evaluated Script:</h3>''
     @ [LF] @ ''        <div style="font-family:monospace;">'' @ numbered fullScript @ ''</div>''
     @ [LF] @ ''      ''\<close>

definition evaluateJSSwithCache ::
  "node \<Rightarrow> string \<Rightarrow> string \<Rightarrow> bool \<Rightarrow> nat \<Rightarrow> cgi \<Rightarrow> (js_error + string) \<times> cgi" where
  "evaluateJSSwithCache nd CACHE_DIR jssPath debugMode now st =
     (case cachedFullScript nd CACHE_DIR jssPath now st of
        Inl e \<Rightarrow> (Inl e, st)
      | Inr (fullScript, st1) \<Rightarrow>
          (case vmRun nd (basename jssPath) fullScript st1 of
             (Inr output, st2) \<Rightarrow> (Inr output, st2)
           | (Inl e, st2) \<Rightarrow>
               if debugMode
               then (Inr (errorReport e fullScript),
                     header ''Status: 500 Internal Server Error''
                       (header ''Content-Type: text/html'' st2))
               else (Inl e, st2)))"

section \<open>exec.js: evCompiled\<close>

text \<open>\<^verbatim>\<open>_SERVER['PATH_TRANSLATED'] || _SERVER['SCRIPT_FILENAME']\<close>: an absent or empty first
  operand gives the second.\<close>

definition scriptPath :: "cgi \<Rightarrow> string option" where
  "scriptPath st =
     (case SERVER st ''PATH_TRANSLATED'' of
        None \<Rightarrow> SERVER st ''SCRIPT_FILENAME''
      | Some p \<Rightarrow> if p \<noteq> [] then Some p else SERVER st ''SCRIPT_FILENAME'')"

definition debugOn :: "node \<Rightarrow> cgi \<Rightarrow> bool" where
  "debugOn nd st \<longleftrightarrow> GET st ''debug'' = Some ''1'' \<or> env_DEBUG nd = Some ''1''"

text \<open>The \<^verbatim>\<open>catch\<close> block of lines 330 to 334.\<close>

definition compiledFailure :: "string \<Rightarrow> js_error \<Rightarrow> nat \<Rightarrow> cgi \<Rightarrow> cgi" where
  \<open>compiledFailure sessionDir e now st =
     exit sessionDir (''<pre style="color:red;">'' @ html_escape (stack e) @ ''</pre>'') now
       (header ''Status: 500 Internal Server Error'' (header ''Content-Type: text/html'' st))\<close>

text \<open>\<^verbatim>\<open>evCompiled\<close>: \<^verbatim>\<open>path.dirname(scriptPath)\<close> in the context literal throws when no
  script path is set; everything thrown inside the \<^verbatim>\<open>try\<close> reaches the \<^verbatim>\<open>catch\<close>.\<close>

definition evCompiled :: "node \<Rightarrow> string \<Rightarrow> string \<Rightarrow> nat \<Rightarrow> cgi \<Rightarrow> cgi" where
  "evCompiled nd CACHE_DIR sessionDir now st =
     (case scriptPath st of
        None \<Rightarrow> compiledFailure sessionDir (dirnameError nd) now st
      | Some p \<Rightarrow>
          (case evaluateJSSwithCache nd CACHE_DIR p (debugOn nd st) now
                  (header ''Content-Type: text/html'' st) of
             (Inr output, st2) \<Rightarrow> exit sessionDir output now st2
           | (Inl e, st2) \<Rightarrow> compiledFailure sessionDir e now st2))"

section \<open>A request whose template throws\<close>

text \<open>
  The template \<^verbatim>\<open><? throw new Error("boom") ?>\<close> at \<^verbatim>\<open>/www/t.jss\<close>, requested with
  \<^verbatim>\<open>PATH_TRANSLATED\<close> set, and a Node whose script run throws that error with its stack
  trace when given the compiled script.
\<close>

definition boomStack :: string where
  "boomStack = ''Error: boom'' @ [LF] @ ''    at t.jss:1:7'' @ [LF]
     @ ''    at Script.runInContext (node:vm:149:12)''"

definition boomEvalStack :: string where
  "boomEvalStack = ''Error: boom'' @ [LF]
     @ ''    at eval (eval at evaluateEvalBlocks (/lib/exec.js:61:5), <anonymous>:1:7)''"

definition boomNode :: node where
  \<open>boomNode =
     \<lparr>vmRun = (\<lambda>filename fullScript st.
                 if fullScript = ''throw new Error("boom")''
                 then (Inl (Error ''boom'' boomStack), st) else (Inr [], st)),
      evalRun = (\<lambda>fullScript st.
                 if fullScript = ''throw new Error("boom")''
                 then (Inl (Error ''boom'' boomEvalStack), st) else (Inr [], st)),
      enoent = (\<lambda>call p. Error (''ENOENT: no such file or directory, '' @ call) ''Error: ENOENT''),
      dirnameError = Error ''The "path" argument must be of type string'' ''TypeError'',
      errorStack = (\<lambda>msg. ''Error: '' @ msg @ [LF] @ ''    at evaluateEvalBlocks (/lib/exec.js:88:13)''),
      env_DEBUG = None\<rparr>\<close>

definition boomRequest :: "(string \<rightharpoonup> string) \<Rightarrow> cgi" where
  \<open>boomRequest query =
     initial\<lparr>GET := query,
             SERVER := [''PATH_TRANSLATED'' \<mapsto> ''/www/t.jss''],
             fs := [''/www/t.jss'' \<mapsto> \<lparr>bytes = ''<? throw new Error("boom") ?>'', mtimeMs = 5\<rparr>]\<rparr>\<close>

section \<open>exec.js: evaluateEvalBlocks and evEval\<close>

text \<open>
  \<^verbatim>\<open>e.stack.match(/<anonymous>:(\d+):\d+/)\<close> and \<^verbatim>\<open>parseInt(matchLine[1], 10)\<close>: the
  number after the first \<^verbatim>\<open><anonymous>:\<close> that is followed by digits, a colon and a digit.
\<close>

definition isDigit :: "char \<Rightarrow> bool" where
  "isDigit c \<longleftrightarrow> c \<in> set ''0123456789''"

definition parseInt :: "string \<Rightarrow> nat" where
  "parseInt ds = foldl (\<lambda>n c. 10 * n + (of_char c - 48)) 0 ds"

fun matchLine :: "string \<Rightarrow> nat option" where
  "matchLine [] = None"
| "matchLine (c # cs) =
     (let after = drop 12 (c # cs);
          digits = takeWhile isDigit after;
          rest = dropWhile isDigit after
      in if prefix ''<anonymous>:'' (c # cs) \<and> digits \<noteq> []
            \<and> (case rest of x # y # _ \<Rightarrow> x = CHR '':'' \<and> isDigit y | _ \<Rightarrow> False)
         then Some (parseInt digits)
         else matchLine cs)"

text \<open>The listing of lines 73 to 77: the line whose number is \<^verbatim>\<open>errorLine\<close> gets the
  background.\<close>

definition evalNumberedLine :: "nat option \<Rightarrow> nat \<Rightarrow> string \<Rightarrow> string" where
  \<open>evalNumberedLine errorLine idx line =
     (let lineNum = idx + 1;
          highlight = (if Some lineNum = errorLine then ''background: #fee;'' else [])
      in ''<div style="white-space: pre; '' @ highlight @ ''"><span style="color:gray;">''
           @ padStart4 (showNat lineNum) @ '':</span> '' @ html_escape line @ ''</div>'')\<close>

definition evalNumbered :: "nat option \<Rightarrow> string \<Rightarrow> string" where
  "evalNumbered errorLine fullScript =
     concat (map (\<lambda>(idx, line). evalNumberedLine errorLine idx line)
               (enumerate 0 (splitOn LF fullScript)))"

text \<open>The template literal of lines 79 to 86.\<close>

definition evalErrorReport :: "js_error \<Rightarrow> string \<Rightarrow> string" where
  \<open>evalErrorReport e fullScript =
     [LF] @ ''        <h2 style="color:#a00;">Script Error</h2>''
     @ [LF] @ ''        <pre><b>'' @ html_escape (message e) @ ''</b></pre>''
     @ [LF] @ ''        <h3>Stack Trace:</h3>''
     @ [LF] @ ''        <pre>'' @ html_escape (stack e) @ ''</pre>''
     @ [LF] @ ''        <h3>Evaluated Script with Line Numbers:</h3>''
     @ [LF] @ ''        <div style="font-family:monospace; font-size:0.9em;">''
     @ evalNumbered (matchLine (stack e)) fullScript @ ''</div>''
     @ [LF] @ ''      ''\<close>

text \<open>\<^verbatim>\<open>evaluateEvalBlocks\<close>: its loop over the delimiters is the one of
  \<^verbatim>\<open>parseJSSBlocks\<close>, line for line.\<close>

definition evaluateEvalBlocks :: "node \<Rightarrow> string \<Rightarrow> bool \<Rightarrow> cgi \<Rightarrow> (js_error + string) \<times> cgi" where
  "evaluateEvalBlocks nd rawContent debugMode st =
     (let fullScript = join [LF] (parseJSSBlocks rawContent)
      in case evalRun nd fullScript st of
           (Inr output, st1) \<Rightarrow> (Inr output, st1)
         | (Inl e, st1) \<Rightarrow>
             if debugMode
             then (Inr (evalErrorReport e fullScript),
                   header ''Status: 500 Internal Server Error''
                     (header ''Content-Type: text/html'' st1))
             else (Inl (Error (''Internal error: '' @ message e)
                          (errorStack nd (''Internal error: '' @ message e))), st1))"

text \<open>The \<^verbatim>\<open>catch\<close> block of lines 256 to 270.\<close>

definition evalFailure :: "string \<Rightarrow> js_error \<Rightarrow> nat \<Rightarrow> cgi \<Rightarrow> cgi" where
  \<open>evalFailure sessionDir err now st =
     exit sessionDir
       ([LF] @ ''      <html>''
        @ [LF] @ ''      <head><title>Script Error</title></head>''
        @ [LF] @ ''      <body style="font-family:sans-serif;color:#c00;">''
        @ [LF] @ ''        <h1>Execution Error</h1>''
        @ [LF] @ ''        <pre>'' @ html_escape (message err) @ ''</pre>''
        @ [LF] @ ''      </body>''
        @ [LF] @ ''      </html>''
        @ [LF] @ ''    '') now
       (header ''Status: 500 Internal Server Error'' (header ''Content-Type: text/html'' st))\<close>

definition evEval :: "node \<Rightarrow> string \<Rightarrow> nat \<Rightarrow> cgi \<Rightarrow> cgi" where
  "evEval nd sessionDir now st =
     (case scriptPath st of
        None \<Rightarrow>
          evalFailure sessionDir
            (Error ''PATH_TRANSLATED not set'' (errorStack nd ''PATH_TRANSLATED not set'')) now st
      | Some p \<Rightarrow>
          if p = []
          then evalFailure sessionDir
                 (Error ''PATH_TRANSLATED not set'' (errorStack nd ''PATH_TRANSLATED not set'')) now st
          else let st1 = header ''Content-Type: text/html'' st
               in (case fs st1 p of
                     None \<Rightarrow> evalFailure sessionDir (enoent nd ''open'' p) now st1
                   | Some source \<Rightarrow>
                       (case evaluateEvalBlocks nd (bytes source) (debugOn nd st1) st1 of
                          (Inr renderedOutput, st2) \<Rightarrow> exit sessionDir renderedOutput now st2
                        | (Inl err, st2) \<Rightarrow> evalFailure sessionDir err now st2)))"

section \<open>cgiNode.js: parseMultipartBody\<close>

text \<open>\<^verbatim>\<open>buffer.indexOf(value, byteOffset)\<close>, \<^verbatim>\<open>None\<close> for -1, and \<^verbatim>\<open>buffer.slice(start, end)\<close>
  for indices that are not negative: an end before the start gives the empty buffer.\<close>

definition indexOf :: "string \<Rightarrow> string \<Rightarrow> nat \<Rightarrow> nat option" where
  "indexOf buffer val byteOffset =
     (case findSub val (drop byteOffset buffer) of
        None \<Rightarrow> None
      | Some (found, _) \<Rightarrow> Some (byteOffset + length found))"

definition slice :: "string \<Rightarrow> nat \<Rightarrow> nat \<Rightarrow> string" where
  "slice buffer start stop = take (stop - start) (drop start buffer)"

text \<open>The \<^verbatim>\<open>while\<close> loop of lines 6 to 13: the parts from \<^verbatim>\<open>start\<close> on.\<close>

function collectParts :: "string \<Rightarrow> string \<Rightarrow> nat \<Rightarrow> string list" where
  "collectParts buffer boundaryBuffer start =
     (if start < length buffer
      then (case indexOf buffer boundaryBuffer start of
              None \<Rightarrow> []
            | Some nextBoundary \<Rightarrow>
                slice buffer start (nextBoundary - 2)
                  # collectParts buffer boundaryBuffer (nextBoundary + length boundaryBuffer + 2))
      else [])"
  by pat_completeness auto
termination
proof (relation "measure (\<lambda>(buffer, boundaryBuffer, start). length buffer - start)", goal_cases)
  case 1
  show ?case by simp
next
  case (2 buffer boundaryBuffer start nextBoundary)
  then have "start \<le> nextBoundary"
    by (auto simp: indexOf_def split: option.splits)
  with 2 show ?case by simp
qed

declare collectParts.simps [simp del]

text \<open>Line 5: the first boundary, which \<^verbatim>\<open>indexOf\<close> gives as -1 when there is none.\<close>

definition firstStart :: "string \<Rightarrow> string \<Rightarrow> nat" where
  "firstStart buffer boundaryBuffer =
     (case indexOf buffer boundaryBuffer 0 of
        None \<Rightarrow> length boundaryBuffer + 1
      | Some i \<Rightarrow> i + length boundaryBuffer + 2)"

text \<open>
  The three matches on the header text.  \<^verbatim>\<open>/name="([^"]+)"/\<close> matches at the first
  \<^verbatim>\<open>name="\<close> that is followed by at least one character other than a quote and then a
  quote; \<^verbatim>\<open>/filename="([^"]*)"/\<close> likewise with an empty capture allowed.
\<close>

fun nameMatch :: "string \<Rightarrow> string option" where
  "nameMatch [] = None"
| "nameMatch (c # cs) =
     (let after = drop 6 (c # cs);
          captured = takeWhile (\<lambda>x. x \<noteq> CHR 0x22) after
      in if prefix (''name='' @ [CHR 0x22]) (c # cs) \<and> captured \<noteq> []
            \<and> dropWhile (\<lambda>x. x \<noteq> CHR 0x22) after \<noteq> []
         then Some captured
         else nameMatch cs)"

fun filenameMatch :: "string \<Rightarrow> string option" where
  "filenameMatch [] = None"
| "filenameMatch (c # cs) =
     (let after = drop 10 (c # cs);
          captured = takeWhile (\<lambda>x. x \<noteq> CHR 0x22) after
      in if prefix (''filename='' @ [CHR 0x22]) (c # cs)
            \<and> dropWhile (\<lambda>x. x \<noteq> CHR 0x22) after \<noteq> []
         then Some captured
         else filenameMatch cs)"

text \<open>
  \<^verbatim>\<open>/Content-Type:\s*(.+)/i\<close>: the letters match in either case; \<^verbatim>\<open>\s*\<close> takes the white
  space that follows and \<^verbatim>\<open>(.+)\<close> the text up to the next line terminator.  When only white
  space follows, \<^verbatim>\<open>\s*\<close> gives back as little as it can and the capture is the last
  character of that white space that is no line terminator.
\<close>

definition lowerAscii :: "char \<Rightarrow> char" where
  "lowerAscii c = (if 65 \<le> (of_char c :: nat) \<and> (of_char c :: nat) \<le> 90 then char_of (of_char c + 32 :: nat) else c)"

definition isLineTerminator :: "char \<Rightarrow> bool" where
  "isLineTerminator c \<longleftrightarrow> c = CHR 0x0A \<or> c = CHR 0x0D"

fun contentTypeMatch :: "string \<Rightarrow> string option" where
  "contentTypeMatch [] = None"
| "contentTypeMatch (c # cs) =
     (let after = drop 13 (c # cs);
          spaces = takeWhile isSpace after;
          rest = dropWhile isSpace after;
          kept = filter (\<lambda>x. \<not> isLineTerminator x) spaces
      in if map lowerAscii (take 13 (c # cs)) = ''content-type:''
         then (if rest \<noteq> [] then Some (takeWhile (\<lambda>x. \<not> isLineTerminator x) rest)
               else if kept \<noteq> [] then Some [last kept]
               else contentTypeMatch cs)
         else contentTypeMatch cs)"

text \<open>\<^verbatim>\<open>uploadDir\<close> is \<^verbatim>\<open>path.join(__dirname, 'uploads')\<close>, a parameter; \<^verbatim>\<open>now\<close> is the value of
  \<^verbatim>\<open>Date.now()\<close>.  The joined path needs no normalising: its last segment starts with a
  digit and holds no slash.\<close>

definition uploadPath :: "string \<Rightarrow> nat \<Rightarrow> string \<Rightarrow> string" where
  "uploadPath uploadDir now safeFilename = uploadDir @ ''/'' @ showNat now @ ''_'' @ safeFilename"

text \<open>The property key a value is converted to: \<^verbatim>\<open>undefined\<close> becomes \<^verbatim>\<open>"undefined"\<close>.\<close>

definition propertyKey :: "string option \<Rightarrow> string" where
  "propertyKey name = (case name of None \<Rightarrow> ''undefined'' | Some n \<Rightarrow> n)"

text \<open>
  The body of the \<^verbatim>\<open>for\<close> loop, lines 16 to 44, for one part.  The write is taken to
  succeed; the file is stamped with the clock value that names it.
\<close>

definition processPart :: "string \<Rightarrow> nat \<Rightarrow> string \<Rightarrow> cgi \<Rightarrow> cgi" where
  "processPart uploadDir now part st =
     (case findSub (CRLF @ CRLF) part of
        None \<Rightarrow> st
      | Some (rawHeaders, content) \<Rightarrow>
          let name = nameMatch rawHeaders;
              filename = filenameMatch rawHeaders;
              contentType = contentTypeMatch rawHeaders
          in if filename \<noteq> None \<and> filename \<noteq> Some []
             then let safeFilename = basename (the filename);
                      tmpPath = uploadPath uploadDir now safeFilename;
                      st1 = writeFileSync tmpPath content now st
                  in st1\<lparr>FILES := setObj (propertyKey name)
                                    \<lparr>fd_name = safeFilename, fd_type = contentType,
                                     fd_size = length content, tmp_name = tmpPath, fd_error = 0\<rparr>
                                    (FILES st1)\<rparr>
             else if name \<noteq> None
             then st\<lparr>POST := setPrim (the name) (Str content) (POST st)\<rparr>
             else st)"

text \<open>\<^verbatim>\<open>parseMultipartBody\<close>: \<^verbatim>\<open>clock i\<close> is what \<^verbatim>\<open>Date.now()\<close> returns while the part of
  index \<^verbatim>\<open>i\<close> is handled.\<close>

definition processIndexed :: "string \<Rightarrow> (nat \<Rightarrow> nat) \<Rightarrow> cgi \<Rightarrow> nat \<times> string \<Rightarrow> cgi" where
  "processIndexed uploadDir clock st ip = processPart uploadDir (clock (fst ip)) (snd ip) st"

definition parseMultipartBody :: "string \<Rightarrow> (nat \<Rightarrow> nat) \<Rightarrow> string \<Rightarrow> string \<Rightarrow> cgi \<Rightarrow> cgi" where
  "parseMultipartBody uploadDir clock buffer boundary st =
     (let boundaryBuffer = ''--'' @ boundary;
          parts = collectParts buffer boundaryBuffer (firstStart buffer boundaryBuffer)
      in foldl (processIndexed uploadDir clock) st (enumerate 0 parts))"

section \<open>Multipart bodies\<close>

text \<open>
  A multipart body as a client writes it, for stating what the parser does with it: every
  part is preceded by the delimiter line and followed by CRLF, and the closing delimiter
  ends the body.  A part is its header block, CRLF CRLF, and its content.
\<close>

definition multipartBody :: "string \<Rightarrow> string list \<Rightarrow> string" where
  "multipartBody boundary parts =
     concat (map (\<lambda>part. ''--'' @ boundary @ CRLF @ part @ CRLF) parts)
       @ ''--'' @ boundary @ ''--'' @ CRLF"

text \<open>The spec's scenario: a text field \<^verbatim>\<open>foo=bar\<close> and a file field \<^verbatim>\<open>file\<close> named
  \<^verbatim>\<open>test.txt\<close> with content \<^verbatim>\<open>hello\<close>.\<close>

definition fooPart :: string where
  \<open>fooPart = ''Content-Disposition: form-data; name="foo"'' @ CRLF @ CRLF @ ''bar''\<close>

definition filePart :: string where
  \<open>filePart = ''Content-Disposition: form-data; name="file"; filename="test.txt"'' @ CRLF
     @ ''Content-Type: text/plain'' @ CRLF @ CRLF @ ''hello''\<close>

text \<open>What follows a delimiter in such a body, for the proofs about the loop.\<close>

fun afterBoundary :: "string \<Rightarrow> string list \<Rightarrow> string" where
  "afterBoundary boundary [] = ''--'' @ CRLF"
| "afterBoundary boundary (part # parts) =
     CRLF @ part @ CRLF @ ''--'' @ boundary @ afterBoundary boundary parts"

text \<open>The state of the \<^verbatim>\<open>for\<close> loop when the part of index \<^verbatim>\<open>i\<close> has been handled.\<close>

definition stateAfterPart :: "string \<Rightarrow> (nat \<Rightarrow> nat) \<Rightarrow> string list \<Rightarrow> cgi \<Rightarrow> nat \<Rightarrow> cgi" where
  "stateAfterPart uploadDir clock parts st i =
     foldl (processIndexed uploadDir clock) st (take (Suc i) (enumerate 0 parts))"

definition fileHeaders :: string where
  \<open>fileHeaders = ''Content-Disposition: form-data; name="file"; filename="test.txt"'' @ CRLF
     @ ''Content-Type: text/plain''\<close>

section \<open>Two scripts with one cache file\<close>

text \<open>Two templates whose paths differ in \<^verbatim>\<open>>\<close> against \<^verbatim>\<open>?\<close>, and the disk after the
  first of them has been compiled at time 7.\<close>

definition twoScripts :: cgi where
  \<open>twoScripts =
     initial\<lparr>fs := [''/www/>.jss'' \<mapsto> \<lparr>bytes = ''<? echo("one") ?>'', mtimeMs = 5\<rparr>,
                    ''/www/?.jss'' \<mapsto> \<lparr>bytes = ''<? echo("two") ?>'', mtimeMs = 5\<rparr>]\<rparr>\<close>

definition afterFirstScript :: cgi where
  \<open>afterFirstScript =
     writeFileSync ''/lib/jss_cache/L3d3dy8_Lmpzcw__.cache.js'' ''echo("one")'' 7 twoScripts\<close>

section \<open>Two uploads with one name, and a delimiter inside a file\<close>

text \<open>Two file fields \<^verbatim>\<open>a\<close> and \<^verbatim>\<open>b\<close>, both sending a file named \<^verbatim>\<open>x.txt\<close>, with the
  contents \<^verbatim>\<open>AAAA\<close> and \<^verbatim>\<open>BB\<close>; and a file whose content holds the text \<^verbatim>\<open>--XyZ\<close>.\<close>

definition uploadHeaders :: "string \<Rightarrow> string \<Rightarrow> string" where
  \<open>uploadHeaders field filename =
     ''Content-Disposition: form-data; name="'' @ field @ ''"; filename="'' @ filename @ ''"'' @ CRLF
     @ ''Content-Type: text/plain''\<close>

definition uploadA :: string where
  "uploadA = uploadHeaders ''a'' ''x.txt'' @ CRLF @ CRLF @ ''AAAA''"

definition uploadB :: string where
  "uploadB = uploadHeaders ''b'' ''x.txt'' @ CRLF @ CRLF @ ''BB''"

definition uploadDashes :: string where
  "uploadDashes = uploadHeaders ''file'' ''test.txt'' @ CRLF @ CRLF @ ''hello--XyZworld''"

section \<open>Properties\<close>

subsection \<open>The response and html_escape\<close>

lemma html_escape_Nil: "html_escape [] = []"
  by (simp add: html_escape_def)

lemma html_escape_Cons: "html_escape (c # cs) = entityOf c @ html_escape cs"
  by (simp add: html_escape_def escapeClass_def entities_def entityOf_def SQ_def)

lemma html_escape_append: "html_escape (xs @ ys) = html_escape xs @ html_escape ys"
  by (induction xs) (simp_all add: html_escape_Nil html_escape_Cons)

text \<open>
  C8: once the headers are flushed (\<^verbatim>\<open>headersSent\<close> is set), \<^verbatim>\<open>header(s)\<close> changes nothing:
  the header buffer, the body buffer, the flag and every other part of the state are as
  before the call.
\<close>

theorem header_after_finalized_noop:
  "headersSent st \<Longrightarrow> header s st = st"
  by (simp add: header_def)

text \<open>
  C9: \<^verbatim>\<open>html_escape\<close> is a function of its argument alone, and its result is the input with
  each of the five characters replaced by its entity and every other character kept.
\<close>

theorem html_escape_entities:
  "html_escape s = concat (map entityOf s)"
  by (induction s) (simp_all add: html_escape_Nil html_escape_Cons)

theorem header_after_finalized_noop_witness:
  "headersSent (exit ''/lib/sessions'' ''bye'' 0 initial) \<and>
   header ''X-Late: 1'' (exit ''/lib/sessions'' ''bye'' 0 initial)
     = exit ''/lib/sessions'' ''bye'' 0 initial"
proof -
  have sent: "headersSent (exit ''/lib/sessions'' ''bye'' 0 initial)"
    by (simp add: exit_def initial_def saveSession_def Let_def)
  from header_after_finalized_noop [OF sent] sent show ?thesis by simp
qed

theorem html_escape_entities_witness:
  \<open>html_escape ''<a href="x">Tom & Jerry</a>''
     = ''&lt;a href=&quot;x&quot;&gt;Tom &amp; Jerry&lt;/a&gt;''\<close>
  using html_escape_entities [of \<open>''<a href="x">Tom & Jerry</a>''\<close>]
  by (simp add: entityOf_def)

lemma stdout_saveSession: "stdout (saveSession d now st) = stdout st"
  by (simp add: saveSession_def writeFileSync_def split: option.splits)

lemma exit_stdout:
  "stdout (exit d msg now st)
     = stdout st @ (if headersSent st then [] else headerBuffer st @ CRLF) @ msg @ bodyBuffer st"
  by (simp add: exit_def Let_def stdout_saveSession)

text \<open>
  C2 as stated fails: with \<^verbatim>\<open>B\<close> buffered by \<^verbatim>\<open>echo\<close> and \<^verbatim>\<open>exit("M")\<close>, the body
  written is \<^verbatim>\<open>MB\<close>, the argument first.
\<close>

theorem exit_body_order_counterexample:
  "\<not> headersSent (echo ''B'' initial) \<and>
   stdout (exit ''/lib/sessions'' ''M'' 0 (echo ''B'' initial))
     \<noteq> stdout (echo ''B'' initial) @ headerBuffer (echo ''B'' initial) @ CRLF
         @ bodyBuffer (echo ''B'' initial) @ ''M''"
  by (simp add: exit_stdout echo_def initial_def)

text \<open>
  C2, amended: when \<^verbatim>\<open>exit(extraBody)\<close> is called with the headers not yet sent, the bytes
  written to standard output are the buffered header lines, one blank CRLF line, then
  \<^verbatim>\<open>extraBody\<close> followed by the buffered body: the argument precedes the buffered body.
\<close>

theorem exit_writes_headers_extra_body:
  "\<not> headersSent st \<Longrightarrow>
   stdout (exit d extraBody now st)
     = stdout st @ headerBuffer st @ CRLF @ extraBody @ bodyBuffer st"
  by (simp add: exit_stdout)

theorem exit_writes_headers_extra_body_witness:
  "\<not> headersSent (echo ''B'' (header ''Content-Type: text/html'' initial)) \<and>
   stdout (exit ''/lib/sessions'' ''M'' 0 (echo ''B'' (header ''Content-Type: text/html'' initial)))
     = ''Content-Type: text/html'' @ CRLF @ CRLF @ ''MB''"
proof -
  have building: "\<not> headersSent (echo ''B'' (header ''Content-Type: text/html'' initial))"
    by (simp add: echo_def header_def initial_def)
  from exit_writes_headers_extra_body [OF building, of "''/lib/sessions''" "''M''" 0] building
  show ?thesis
    by (simp add: echo_def header_def initial_def endsWith_def CRLF_def suffix_to_prefix)
qed

subsection \<open>Cookies\<close>

lemma splitOn_not_Nil: "splitOn c s \<noteq> []"
  by (induction s) (simp_all split: list.splits)

lemma splitOn_no_sep: "c \<notin> set s \<Longrightarrow> splitOn c s = [s]"
  by (induction s) auto

lemma splitOn_at_sep: "c \<notin> set k \<Longrightarrow> splitOn c (k @ c # r) = k # splitOn c r"
  by (induction k) auto

lemma takeWhile_no_sep: "c \<notin> set s \<Longrightarrow> takeWhile (\<lambda>x. x \<noteq> c) s = s"
  by (induction s) auto

lemma takeWhile_at_sep: "c \<notin> set k \<Longrightarrow> takeWhile (\<lambda>x. x \<noteq> c) (k @ c # r) = k"
  by (induction k) auto

lemma splitOn_first: "\<exists>ps. splitOn c s = takeWhile (\<lambda>x. x \<noteq> c) s # ps"
proof (cases "c \<in> set s")
  case False
  then show ?thesis
    by (simp add: splitOn_no_sep takeWhile_no_sep)
next
  case True
  then obtain k r where s: "s = k @ c # r" and k: "c \<notin> set k"
    by (meson split_list_first)
  from k show ?thesis
    unfolding s by (simp add: splitOn_at_sep takeWhile_at_sep)
qed

lemma cookieEntry_key_value:
  "cookieEntry cookie cookies =
     (if cookieKey cookie \<noteq> [] \<and> cookieValue cookie \<noteq> []
      then setPrim (cookieKey cookie) (cookieValue cookie) cookies else cookies)"
proof (cases "CHR ''='' \<in> set (trim cookie)")
  case False
  then have key: "cookieKey cookie = trim cookie"
    by (simp add: cookieKey_def takeWhile_no_sep)
  then have "cookieValue cookie = []"
    by (simp add: cookieValue_def)
  moreover from False have "splitOn (CHR ''='') (trim cookie) = [trim cookie]"
    by (rule splitOn_no_sep)
  ultimately show ?thesis
    by (simp add: cookieEntry_def)
next
  case True
  then obtain k r where t: "trim cookie = k @ CHR ''='' # r" and k: "CHR ''='' \<notin> set k"
    by (meson split_list_first)
  from k have key: "cookieKey cookie = k"
    unfolding cookieKey_def t by (rule takeWhile_at_sep)
  have val: "cookieValue cookie = takeWhile (\<lambda>c. c \<noteq> CHR ''='') r"
    unfolding cookieValue_def key unfolding t by simp
  obtain ps where "splitOn (CHR ''='') r = cookieValue cookie # ps"
    using splitOn_first [of "CHR ''=''" r] unfolding val by blast
  with k have "splitOn (CHR ''='') (trim cookie) = cookieKey cookie # cookieValue cookie # ps"
    unfolding t key by (simp add: splitOn_at_sep)
  then show ?thesis
    by (simp add: cookieEntry_def)
qed

text \<open>
  C10: \<^verbatim>\<open>parseCookies\<close> takes the entries between the \<^verbatim>\<open>;\<close> of the cookie header in
  order; for each, with the entry trimmed, the key is the text before the first \<^verbatim>\<open>=\<close> and
  the value the text between the first \<^verbatim>\<open>=\<close> and the next one; the pair is stored when
  both are non-empty and the entry is ignored otherwise.  So a bare \<^verbatim>\<open>k\<close> and \<^verbatim>\<open>k=\<close> are
  ignored, and of \<^verbatim>\<open>k=v=w\<close> only \<^verbatim>\<open>v\<close> is stored.
\<close>

theorem parseCookies_entries:
  "parseCookies st =
     foldl (\<lambda>cookies cookie.
              if cookieKey cookie \<noteq> [] \<and> cookieValue cookie \<noteq> []
              then setPrim (cookieKey cookie) (cookieValue cookie) cookies else cookies)
       emptyObj (splitOn (CHR '';'') (cookieStr st))"
  by (simp add: parseCookies_def cookieEntry_key_value)

theorem parseCookies_entries_witness:
  "parseCookies (initial\<lparr>SERVER := [''HTTP_COOKIE'' \<mapsto> ''a=b=c; k=; j; PHPSESSID=xyz'']\<rparr>)
     = \<lparr>own = [''a'' \<mapsto> ''b'', ''PHPSESSID'' \<mapsto> ''xyz''], proto = None\<rparr>"
  using parseCookies_entries [of "initial\<lparr>SERVER := [''HTTP_COOKIE'' \<mapsto> ''a=b=c; k=; j; PHPSESSID=xyz'']\<rparr>"]
  by (simp add: cookieStr_def initial_def cookieKey_def cookieValue_def trim_def trimStart_def
      trimEnd_def isSpace_def setPrim_def emptyObj_def)

subsection \<open>The urlencoded body\<close>

text \<open>
  C3: for the body \<^verbatim>\<open>a=1&a=2\<close> the field \<^verbatim>\<open>a\<close> of \<^verbatim>\<open>_POST\<close> is the array of both values,
  not the string of the last one.
\<close>

theorem parseUrlEncodedBody_duplicate_key:
  "getProp (POST (parseUrlEncodedBody ''a=1&a=2'' initial)) ''a'' = Some (Arr [''1'', ''2'']) \<and>
   getProp (POST (parseUrlEncodedBody ''a=1&a=2'' initial)) ''a'' \<noteq> Some (Str ''2'')"
  by (simp add: parseUrlEncodedBody_def querystring_parse_def qsPair_def qsDecode_def
      assignField_def setObj_def setPrim_def getProp_def initial_def emptyObj_def)

subsection \<open>The cache key\<close>

lemma b64alphabet_distinct: "distinct b64alphabet"
  by (simp add: b64alphabet_def)

lemma b64alphabet_length: "length b64alphabet = 64"
  by (simp add: b64alphabet_def)

lemma b64_in_alphabet: "b64 n \<in> set b64alphabet"
  by (simp add: b64_def b64alphabet_length)

lemma b64_eq_iff: "b64 i = b64 j \<longleftrightarrow> i mod 64 = j mod 64"
  by (simp add: b64_def nth_eq_iff_index_eq b64alphabet_distinct b64alphabet_length)

lemma b64_not_pad: "b64 n \<noteq> CHR ''=''"
  using b64_in_alphabet [of n] by (auto simp: b64alphabet_def)

lemma b64_not_underscore: "b64 n \<noteq> CHR ''_''"
  using b64_in_alphabet [of n] by (auto simp: b64alphabet_def)

lemma sextets_eq:
  fixes n m :: nat
  assumes n: "n < 16777216" and m: "m < 16777216"
    and e1: "n div 262144 mod 64 = m div 262144 mod 64"
    and e2: "n div 4096 mod 64 = m div 4096 mod 64"
    and e3: "n div 64 mod 64 = m div 64 mod 64"
    and e4: "n mod 64 = m mod 64"
  shows "n = m"
proof -
  have "n mod 4096 = m mod 4096"
    using mod_mult2_eq [of n 64 64] mod_mult2_eq [of m 64 64] e3 e4 by simp
  then have "n mod 262144 = m mod 262144"
    using mod_mult2_eq [of n 4096 64] mod_mult2_eq [of m 4096 64] e2 by simp
  then have "n mod 16777216 = m mod 16777216"
    using mod_mult2_eq [of n 262144 64] mod_mult2_eq [of m 262144 64] e1 by simp
  with n m show ?thesis by simp
qed

lemma split_digit:
  fixes k :: nat
  assumes x: "x < k" and y: "y < k" and eq: "q * k + x = q' * k + y"
  shows "q = q' \<and> x = y"
proof -
  have "(q * k + x) div k = q" "(q * k + x) mod k = x"
    using x by simp_all
  moreover have "(q' * k + y) div k = q'" "(q' * k + y) mod k = y"
    using y by simp_all
  ultimately show ?thesis
    unfolding eq by simp
qed

lemma quad_inj:
  assumes "n < 16777216" "m < 16777216" "quad n = quad m"
  shows "n = m"
proof -
  from assms(3) have "b64 (n div 262144) = b64 (m div 262144)" "b64 (n div 4096) = b64 (m div 4096)"
    "b64 (n div 64) = b64 (m div 64)" "b64 n = b64 m"
    unfolding quad_def by (simp_all only: list.inject)
  then have "n div 262144 mod 64 = m div 262144 mod 64" "n div 4096 mod 64 = m div 4096 mod 64"
    "n div 64 mod 64 = m div 64 mod 64" "n mod 64 = m mod 64"
    by (simp_all only: b64_eq_iff)
  from sextets_eq [OF assms(1,2) this] show ?thesis .
qed

lemma base64_3:
  "base64 (a # b # c # rest)
     = quad (of_char a * 65536 + of_char b * 256 + of_char c) @ base64 rest"
  by (simp add: quad_def Let_def)

lemma base64_2: "base64 [a, b] = tl (quad (of_char a * 1024 + of_char b * 4)) @ ''=''"
  by (simp add: quad_def Let_def)

lemma base64_1: "base64 [a] = tl (tl (quad (of_char a * 16))) @ ''==''"
  by (simp add: quad_def Let_def)

lemma length_quad: "length (quad n) = 4"
  by (simp add: quad_def)

lemma group3_inj:
  fixes a b c a' b' c' :: char
  assumes "quad (of_char a * 65536 + of_char b * 256 + of_char c)
         = quad (of_char a' * 65536 + of_char b' * 256 + of_char c')"
  shows "a = a' \<and> b = b' \<and> c = c'"
proof -
  have bounds: "(of_char a :: nat) < 256" "(of_char b :: nat) < 256" "(of_char c :: nat) < 256"
    "(of_char a' :: nat) < 256" "(of_char b' :: nat) < 256" "(of_char c' :: nat) < 256"
    by simp_all
  then have "of_char a * 65536 + of_char b * 256 + (of_char c :: nat) < 16777216"
    "of_char a' * 65536 + of_char b' * 256 + (of_char c' :: nat) < 16777216"
    by linarith+
  from quad_inj [OF this assms]
  have "(of_char a * 256 + of_char b) * 256 + (of_char c :: nat)
      = (of_char a' * 256 + of_char b') * 256 + of_char c'"
    by simp
  from split_digit [OF bounds(3) bounds(6) this]
  have ab: "of_char a * 256 + (of_char b :: nat) = of_char a' * 256 + of_char b'"
    and c: "(of_char c :: nat) = of_char c'"
    by simp_all
  from split_digit [OF bounds(2) bounds(5) ab] c show ?thesis
    by simp
qed

lemma group2_inj:
  fixes a b a' b' :: char
  assumes "tl (quad (of_char a * 1024 + of_char b * 4))
         = tl (quad (of_char a' * 1024 + of_char b' * 4))"
  shows "a = a' \<and> b = b'"
proof -
  let ?n = "of_char a * 1024 + (of_char b :: nat) * 4"
  let ?m = "of_char a' * 1024 + (of_char b' :: nat) * 4"
  have bounds: "(of_char a :: nat) < 256" "(of_char b :: nat) < 256"
    "(of_char a' :: nat) < 256" "(of_char b' :: nat) < 256"
    by simp_all
  then have small: "?n < 262144" "?m < 262144"
    by linarith+
  then have "?n div 262144 = 0" "?m div 262144 = 0"
    by (simp_all only: div_less)
  with assms have "quad ?n = quad ?m"
    unfolding quad_def by (simp only: list.sel list.inject simp_thms)
  moreover from small have "?n < 16777216" "?m < 16777216"
    by linarith+
  ultimately have "?n = ?m"
    by (intro quad_inj)
  then have "of_char a * 256 + (of_char b :: nat) = of_char a' * 256 + of_char b'"
    by simp
  from split_digit [OF bounds(2) bounds(4) this] show ?thesis
    by simp
qed

lemma group1_inj:
  fixes a a' :: char
  assumes "tl (tl (quad (of_char a * 16))) = tl (tl (quad (of_char a' * 16)))"
  shows "a = a'"
proof -
  let ?n = "(of_char a :: nat) * 16"
  let ?m = "(of_char a' :: nat) * 16"
  have bounds: "(of_char a :: nat) < 256" "(of_char a' :: nat) < 256"
    by simp_all
  then have small: "?n < 4096" "?m < 4096"
    by linarith+
  then have "?n < 262144" "?m < 262144"
    by linarith+
  with small have "?n div 262144 = 0" "?m div 262144 = 0" "?n div 4096 = 0" "?m div 4096 = 0"
    by (simp_all only: div_less)
  with assms have "quad ?n = quad ?m"
    unfolding quad_def by (simp only: list.sel list.inject simp_thms)
  moreover from small have "?n < 16777216" "?m < 16777216"
    by linarith+
  ultimately have "?n = ?m"
    by (intro quad_inj)
  then show ?thesis
    by simp
qed

lemma base64_inj: "base64 p = base64 q \<Longrightarrow> p = q"
proof (induction p arbitrary: q rule: base64.induct)
  case (1 a b c rest)
  show ?case
  proof (cases q rule: base64.cases)
    case (1 a' b' c' rest')
    from "1.prems" have "quad (of_char a * 65536 + of_char b * 256 + of_char c) @ base64 rest
        = quad (of_char a' * 65536 + of_char b' * 256 + of_char c') @ base64 rest'"
      unfolding 1 base64_3 .
    then have heads: "quad (of_char a * 65536 + of_char b * 256 + of_char c)
        = quad (of_char a' * 65536 + of_char b' * 256 + of_char c')"
      and tails: "base64 rest = base64 rest'"
      by (simp_all add: length_quad)
    from "1.IH" [OF refl tails] group3_inj [OF heads] 1 show ?thesis by simp
  next
    case (2 a' b')
    with "1.prems" show ?thesis by (simp add: Let_def b64_not_pad)
  next
    case (3 a')
    with "1.prems" show ?thesis by (simp add: Let_def b64_not_pad)
  next
    case 4
    with "1.prems" show ?thesis by (simp add: Let_def)
  qed
next
  case (2 a b)
  show ?case
  proof (cases q rule: base64.cases)
    case (1 a' b' c' rest')
    with "2.prems" show ?thesis by (simp add: Let_def b64_not_pad [symmetric])
  next
    case (2 a' b')
    from "2.prems" have "tl (quad (of_char a * 1024 + of_char b * 4))
        = tl (quad (of_char a' * 1024 + of_char b' * 4))"
      unfolding 2 base64_2 by simp
    from group2_inj [OF this] 2 show ?thesis by simp
  next
    case (3 a')
    with "2.prems" show ?thesis by (simp add: Let_def b64_not_pad)
  next
    case 4
    with "2.prems" show ?thesis by (simp add: Let_def)
  qed
next
  case (3 a)
  show ?case
  proof (cases q rule: base64.cases)
    case (1 a' b' c' rest')
    with "3.prems" show ?thesis by (simp add: Let_def b64_not_pad [symmetric])
  next
    case (2 a' b')
    with "3.prems" show ?thesis by (simp add: Let_def b64_not_pad [symmetric])
  next
    case (3 a')
    from "3.prems" have "tl (tl (quad (of_char a * 16))) = tl (tl (quad (of_char a' * 16)))"
      unfolding 3 base64_1 by simp
    from group1_inj [OF this] 3 show ?thesis by simp
  next
    case 4
    with "3.prems" show ?thesis by (simp add: Let_def)
  qed
next
  case 4
  then show ?case
    by (cases q rule: base64.cases) (simp_all add: Let_def)
qed

lemma base64_chars: "set (base64 p) \<subseteq> insert (CHR ''='') (set b64alphabet)"
  by (induction p rule: base64.induct) (simp_all add: Let_def b64_in_alphabet)

lemma base64_no_underscore: "CHR ''_'' \<notin> set (base64 p)"
  using base64_chars [of p] by (auto simp: b64alphabet_def)

lemma replaceClass_single:
  "replaceClass cls (\<lambda>c. [r]) s = map (\<lambda>c. if c \<in> set cls then r else c) s"
  by (induction s) simp_all

lemma cacheHash_eq_base64_eq:
  assumes eq: "cacheHash p1 = cacheHash p2"
    and p1: "CHR ''+'' \<notin> set (base64 p1)" "CHR ''/'' \<notin> set (base64 p1)"
    and p2: "CHR ''+'' \<notin> set (base64 p2)" "CHR ''/'' \<notin> set (base64 p2)"
  shows "base64 p1 = base64 p2"
proof -
  let ?r = "\<lambda>c. if c \<in> set [CHR ''/'', CHR ''+'', CHR ''=''] then CHR ''_'' else c"
  from eq have "map ?r (base64 p1) = map ?r (base64 p2)"
    by (simp only: cacheHash_def replaceClass_single)
  moreover have "inj_on ?r (set (base64 p1) \<union> set (base64 p2))"
    using p1 p2 base64_no_underscore [of p1] base64_no_underscore [of p2]
    by (auto simp: inj_on_def split: if_splits)
  ultimately show ?thesis
    by (rule map_inj_on)
qed

text \<open>
  C4: the cache path is not injective.  The paths \<^verbatim>\<open>/www/>.jss\<close> and \<^verbatim>\<open>/www/?.jss\<close> differ
  and have the same cache path: their base64 texts differ in \<^verbatim>\<open>+\<close> against \<^verbatim>\<open>/\<close> only, and
  both characters are replaced by \<^verbatim>\<open>_\<close>.
\<close>

theorem getCachePath_collision:
  "''/www/>.jss'' \<noteq> ''/www/?.jss'' \<and>
   getCachePath ''/lib/jss_cache'' ''/www/>.jss'' = getCachePath ''/lib/jss_cache'' ''/www/?.jss''"
  by (simp add: getCachePath_def cacheHash_def Let_def b64_def b64alphabet_def)

text \<open>Where the replacement loses nothing: two distinct source paths whose base64 texts
  contain neither \<^verbatim>\<open>+\<close> nor \<^verbatim>\<open>/\<close> have distinct cache paths.\<close>

lemma getCachePath_injective_without_plus_slash:
  assumes "p1 \<noteq> p2"
    and "CHR ''+'' \<notin> set (base64 p1)" "CHR ''/'' \<notin> set (base64 p1)"
    and "CHR ''+'' \<notin> set (base64 p2)" "CHR ''/'' \<notin> set (base64 p2)"
  shows "getCachePath d p1 \<noteq> getCachePath d p2"
proof
  assume "getCachePath d p1 = getCachePath d p2"
  then have "cacheHash p1 = cacheHash p2"
    by (simp add: getCachePath_def)
  from cacheHash_eq_base64_eq [OF this assms(2-5)] have "p1 = p2"
    by (rule base64_inj)
  with assms(1) show False by simp
qed

lemma getCachePath_injective_without_plus_slash_example:
  "''/srv/a.jss'' \<noteq> ''/srv/b.jss'' \<and>
   CHR ''+'' \<notin> set (base64 ''/srv/a.jss'') \<and> CHR ''/'' \<notin> set (base64 ''/srv/a.jss'') \<and>
   CHR ''+'' \<notin> set (base64 ''/srv/b.jss'') \<and> CHR ''/'' \<notin> set (base64 ''/srv/b.jss'') \<and>
   getCachePath ''/lib/jss_cache'' ''/srv/a.jss'' \<noteq> getCachePath ''/lib/jss_cache'' ''/srv/b.jss''"
proof -
  have a: "base64 ''/srv/a.jss'' = ''L3Nydi9hLmpzcw==''"
    by (simp add: Let_def b64_def b64alphabet_def)
  have b: "base64 ''/srv/b.jss'' = ''L3Nydi9iLmpzcw==''"
    by (simp add: Let_def b64_def b64alphabet_def)
  have hyps: "''/srv/a.jss'' \<noteq> ''/srv/b.jss''"
    "CHR ''+'' \<notin> set (base64 ''/srv/a.jss'')" "CHR ''/'' \<notin> set (base64 ''/srv/a.jss'')"
    "CHR ''+'' \<notin> set (base64 ''/srv/b.jss'')" "CHR ''/'' \<notin> set (base64 ''/srv/b.jss'')"
    unfolding a b by simp_all
  from getCachePath_injective_without_plus_slash [OF hyps, of "''/lib/jss_cache''"] hyps
  show ?thesis by simp
qed

subsection \<open>The compilation cache\<close>


lemma cachedFullScript_missing:
  "fs st jssPath = None \<Longrightarrow> cachedFullScript nd CACHE_DIR jssPath now st = Inl (enoent nd ''stat'' jssPath)"
  by (simp add: cachedFullScript_def)

lemma cachedFullScript_stale:
  assumes "fs st jssPath = Some source" "fs st (getCachePath CACHE_DIR jssPath) = Some cached"
    and "mtimeMs cached < mtimeMs source"
  shows "cachedFullScript nd CACHE_DIR jssPath now st =
     Inr (join [LF] (parseJSSBlocks (bytes source)),
          writeFileSync (getCachePath CACHE_DIR jssPath) (join [LF] (parseJSSBlocks (bytes source))) now st)"
  using assms by (simp add: cachedFullScript_def Let_def)

lemma boom_compiled:
  \<open>parseJSSBlocks ''<? throw new Error("boom") ?>'' = [''throw new Error("boom")'']\<close>
  by (simp add: parseJSSBlocks.simps trim_def trimStart_def trimEnd_def isSpace_def)

lemma boom_cache_path: "getCachePath ''/lib/jss_cache'' ''/www/t.jss'' = ''/lib/jss_cache/L3d3dy90Lmpzcw__.cache.js''"
  by (simp add: getCachePath_def cacheHash_def Let_def b64_def b64alphabet_def)


subsection \<open>A code segment that throws\<close>

lemma evaluateJSSwithCache_throws:
  assumes "cachedFullScript nd CACHE_DIR p now st = Inr (fullScript, st1)"
    and "vmRun nd (basename p) fullScript st1 = (Inl e, st2)"
  shows "evaluateJSSwithCache nd CACHE_DIR p debugMode now st =
     (if debugMode
      then (Inr (errorReport e fullScript),
            header ''Status: 500 Internal Server Error'' (header ''Content-Type: text/html'' st2))
      else (Inl e, st2))"
  using assms by (simp add: evaluateJSSwithCache_def)

lemma headerBuffer_header:
  "\<not> headersSent st \<Longrightarrow> \<not> endsWith h CRLF \<Longrightarrow> headerBuffer (header h st) = headerBuffer st @ h @ CRLF"
  by (simp add: header_def)

lemma header_frame:
  "headersSent (header h st) = headersSent st" "stdout (header h st) = stdout st"
  "bodyBuffer (header h st) = bodyBuffer st"
  by (simp_all add: header_def)

lemma failure_headers:
  "\<not> endsWith ''Content-Type: text/html'' CRLF" "\<not> endsWith ''Status: 500 Internal Server Error'' CRLF"
  by (simp_all add: endsWith_def CRLF_def suffix_to_prefix)

lemma compiledFailure_stdout:
  assumes "\<not> headersSent st"
  shows \<open>stdout (compiledFailure sessionDir e now st) =
     stdout st @ headerBuffer st @ ''Content-Type: text/html'' @ CRLF
       @ ''Status: 500 Internal Server Error'' @ CRLF @ CRLF
       @ ''<pre style="color:red;">'' @ html_escape (stack e) @ ''</pre>'' @ bodyBuffer st\<close>
  using assms
  by (simp add: compiledFailure_def exit_stdout header_frame headerBuffer_header failure_headers)

text \<open>
  C1: with diagnostic mode off, when the run of the compiled template throws \<^verbatim>\<open>e\<close>, the
  response \<^verbatim>\<open>evCompiled\<close> writes has status 500 and its body is the escaped stack trace of
  \<^verbatim>\<open>e\<close> inside a \<^verbatim>\<open>pre\<close> element, followed by the buffered body: the trace is in the response.
\<close>

theorem evCompiled_nondebug_body_is_stack:
  assumes "scriptPath st = Some p" and "\<not> debugOn nd st"
    and "cachedFullScript nd CACHE_DIR p now (header ''Content-Type: text/html'' st) = Inr (fullScript, st1)"
    and "vmRun nd (basename p) fullScript st1 = (Inl e, st2)"
    and "\<not> headersSent st2"
  shows \<open>stdout (evCompiled nd CACHE_DIR sessionDir now st) =
     stdout st2 @ headerBuffer st2 @ ''Content-Type: text/html'' @ CRLF
       @ ''Status: 500 Internal Server Error'' @ CRLF @ CRLF
       @ ''<pre style="color:red;">'' @ html_escape (stack e) @ ''</pre>'' @ bodyBuffer st2\<close>
  using assms
  by (simp add: evCompiled_def evaluateJSSwithCache_throws compiledFailure_stdout)

lemma boom_cached:
  \<open>cachedFullScript boomNode ''/lib/jss_cache'' ''/www/t.jss'' 7
      (header ''Content-Type: text/html'' (boomRequest query))
    = Inr (''throw new Error("boom")'',
           writeFileSync ''/lib/jss_cache/L3d3dy90Lmpzcw__.cache.js'' ''throw new Error("boom")'' 7
             (header ''Content-Type: text/html'' (boomRequest query)))\<close>
  by (simp add: cachedFullScript_def boomRequest_def initial_def header_def Let_def
      boom_cache_path boom_compiled)

lemma boom_throws:
  \<open>vmRun boomNode filename ''throw new Error("boom")'' st = (Inl (Error ''boom'' boomStack), st)\<close>
  by (simp add: boomNode_def)

lemma boom_state:
  "scriptPath (boomRequest query) = Some ''/www/t.jss''"
  "debugOn boomNode (boomRequest query) \<longleftrightarrow> query ''debug'' = Some ''1''"
  "\<not> headersSent (writeFileSync c s t (header ''Content-Type: text/html'' (boomRequest query)))"
  "stdout (writeFileSync c s t (header ''Content-Type: text/html'' (boomRequest query))) = []"
  "bodyBuffer (writeFileSync c s t (header ''Content-Type: text/html'' (boomRequest query))) = []"
  "headerBuffer (writeFileSync c s t (header ''Content-Type: text/html'' (boomRequest query)))
     = ''Content-Type: text/html'' @ CRLF"
  by (simp_all add: scriptPath_def debugOn_def boomRequest_def boomNode_def initial_def
      writeFileSync_def header_def failure_headers)

lemma boom_stack_escaped: "html_escape boomStack = boomStack"
  by (simp add: boomStack_def html_escape_append html_escape_Nil html_escape_Cons entityOf_def LF_def)

theorem evCompiled_nondebug_body_is_stack_witness:
  \<open>scriptPath (boomRequest Map.empty) = Some ''/www/t.jss'' \<and>
   \<not> debugOn boomNode (boomRequest Map.empty) \<and>
   vmRun boomNode (basename ''/www/t.jss'') ''throw new Error("boom")''
      (writeFileSync ''/lib/jss_cache/L3d3dy90Lmpzcw__.cache.js'' ''throw new Error("boom")'' 7
         (header ''Content-Type: text/html'' (boomRequest Map.empty)))
     = (Inl (Error ''boom'' boomStack),
        writeFileSync ''/lib/jss_cache/L3d3dy90Lmpzcw__.cache.js'' ''throw new Error("boom")'' 7
          (header ''Content-Type: text/html'' (boomRequest Map.empty))) \<and>
   stdout (evCompiled boomNode ''/lib/jss_cache'' ''/lib/sessions'' 7 (boomRequest Map.empty))
     = ''Content-Type: text/html'' @ CRLF @ ''Content-Type: text/html'' @ CRLF
       @ ''Status: 500 Internal Server Error'' @ CRLF @ CRLF
       @ ''<pre style="color:red;">'' @ boomStack @ ''</pre>''\<close>
proof -
  let ?st2 = \<open>writeFileSync ''/lib/jss_cache/L3d3dy90Lmpzcw__.cache.js'' ''throw new Error("boom")'' 7
      (header ''Content-Type: text/html'' (boomRequest Map.empty))\<close>
  have path: "scriptPath (boomRequest Map.empty) = Some ''/www/t.jss''"
    by (rule boom_state)
  have nodebug: "\<not> debugOn boomNode (boomRequest Map.empty)"
    by (simp add: boom_state)
  have throws: \<open>vmRun boomNode (basename ''/www/t.jss'') ''throw new Error("boom")'' ?st2
      = (Inl (Error ''boom'' boomStack), ?st2)\<close>
    by (rule boom_throws)
  have building: "\<not> headersSent ?st2"
    by (rule boom_state)
  from evCompiled_nondebug_body_is_stack [OF path nodebug boom_cached throws building,
      of "''/lib/sessions''"]
  show ?thesis
    using path nodebug throws
    by (simp add: boom_state boom_stack_escaped)
qed

subsection \<open>The error report of diagnostic mode\<close>

lemma evCompiled_debug_stdout:
  assumes "scriptPath st = Some p" and "debugOn nd st"
    and "cachedFullScript nd CACHE_DIR p now (header ''Content-Type: text/html'' st) = Inr (fullScript, st1)"
    and "vmRun nd (basename p) fullScript st1 = (Inl e, st2)"
    and "\<not> headersSent st2"
  shows "stdout (evCompiled nd CACHE_DIR sessionDir now st) =
     stdout st2 @ headerBuffer st2 @ ''Content-Type: text/html'' @ CRLF
       @ ''Status: 500 Internal Server Error'' @ CRLF @ CRLF
       @ errorReport e fullScript @ bodyBuffer st2"
  using assms
  by (simp add: evCompiled_def evaluateJSSwithCache_throws exit_stdout header_frame
      headerBuffer_header failure_headers)

lemma boom_numbered:
  \<open>numbered ''throw new Error("boom")''
     = ''<div style="white-space: pre;"><span style="color:gray;">   1:</span> throw new Error(&quot;boom&quot;)</div>''\<close>
  by code_simp

lemma boom_debug_stdout:
  \<open>stdout (evCompiled boomNode ''/lib/jss_cache'' ''/lib/sessions'' 7 (boomRequest [''debug'' \<mapsto> ''1'']))
     = ''Content-Type: text/html'' @ CRLF @ ''Content-Type: text/html'' @ CRLF
       @ ''Status: 500 Internal Server Error'' @ CRLF @ CRLF
       @ [LF] @ ''        <h2 style="color:#a00;">Script Error</h2>''
       @ [LF] @ ''        <pre><b>boom</b></pre>''
       @ [LF] @ ''        <h3>Stack Trace:</h3>''
       @ [LF] @ ''        <pre>'' @ boomStack @ ''</pre>''
       @ [LF] @ ''        <h3>Evaluated Script:</h3>''
       @ [LF] @ ''        <div style="font-family:monospace;">''
       @ ''<div style="white-space: pre;"><span style="color:gray;">   1:</span> throw new Error(&quot;boom&quot;)</div>''
       @ ''</div>''
       @ [LF] @ ''      ''\<close>
proof -
  have "debugOn boomNode (boomRequest [''debug'' \<mapsto> ''1''])"
    by (simp add: boom_state)
  from evCompiled_debug_stdout [OF boom_state(1) this boom_cached boom_throws boom_state(3),
      of "''/lib/sessions''"]
  show ?thesis
    by (simp add: boom_state errorReport_def boom_numbered boom_stack_escaped
        html_escape_Nil html_escape_Cons entityOf_def)
qed

text \<open>
  C6: with diagnostic mode on, the report \<^verbatim>\<open>evCompiled\<close> writes for the template
  \<^verbatim>\<open><? throw new Error("boom") ?>\<close> has status 500, the escaped message, the stack trace and
  the script with line numbers; the stack trace names line 1 (\<^verbatim>\<open>t.jss:1:7\<close>), and the
  \<^verbatim>\<open>div\<close> of line 1 carries no highlight: the text \<^verbatim>\<open>background: #fee;\<close>, with which
  \<^verbatim>\<open>evaluateEvalBlocks\<close> flags the failing line, occurs nowhere in the response.
\<close>

theorem evCompiled_debug_report_unflagged:
  \<open>str_includes boomStack ''t.jss:1:7'' \<and>
   str_includes
     (stdout (evCompiled boomNode ''/lib/jss_cache'' ''/lib/sessions'' 7 (boomRequest [''debug'' \<mapsto> ''1''])))
     ''<div style="white-space: pre;"><span style="color:gray;">   1:</span> throw new Error(&quot;boom&quot;)</div>'' \<and>
   \<not> str_includes
     (stdout (evCompiled boomNode ''/lib/jss_cache'' ''/lib/sessions'' 7 (boomRequest [''debug'' \<mapsto> ''1''])))
     ''background: #fee;''\<close>
  unfolding boom_debug_stdout
  by (simp add: str_includes_def boomStack_def CRLF_def LF_def sublist_Cons_right)

text \<open>The sibling path: for the same template and request, \<^verbatim>\<open>evEval\<close> flags line 1.\<close>

lemma evEval_debug_report_flagged:
  \<open>str_includes
     (stdout (evEval boomNode ''/lib/sessions'' 7 (boomRequest [''debug'' \<mapsto> ''1''])))
     ''<div style="white-space: pre; background: #fee;"><span style="color:gray;">   1:</span> throw new Error(&quot;boom&quot;)</div>''\<close>
  by code_simp

text \<open>The sibling path of the response without diagnostics: \<^verbatim>\<open>evEval\<close> writes the escaped
  message and no stack trace.\<close>

lemma evEval_nondebug_body:
  \<open>stdout (evEval boomNode ''/lib/sessions'' 7 (boomRequest Map.empty))
     = ''Content-Type: text/html'' @ CRLF @ ''Content-Type: text/html'' @ CRLF
       @ ''Status: 500 Internal Server Error'' @ CRLF @ CRLF
       @ [LF] @ ''      <html>''
       @ [LF] @ ''      <head><title>Script Error</title></head>''
       @ [LF] @ ''      <body style="font-family:sans-serif;color:#c00;">''
       @ [LF] @ ''        <h1>Execution Error</h1>''
       @ [LF] @ ''        <pre>Internal error: boom</pre>''
       @ [LF] @ ''      </body>''
       @ [LF] @ ''      </html>''
       @ [LF] @ ''    ''\<close>
  by code_simp

subsection \<open>Multipart file parts\<close>

lemma findSub_first:
  assumes "pat \<noteq> []" "\<not> sublist pat (xs @ butlast pat)"
  shows "findSub pat (xs @ pat @ ys) = Some (xs, ys)"
  using assms(2)
proof (induction xs)
  case Nil
  with assms(1) show ?case
    by (cases pat) simp_all
next
  case (Cons x xs)
  have "\<not> prefix pat (x # xs @ pat @ ys)"
  proof
    assume whole: "prefix pat (x # xs @ pat @ ys)"
    have "pat = butlast pat @ [last pat]"
      using assms(1) by simp
    then have "(x # xs) @ pat @ ys = ((x # xs) @ butlast pat) @ [last pat] @ ys"
      by (metis append.assoc)
    then have "prefix ((x # xs) @ butlast pat) (x # xs @ pat @ ys)"
      by (metis append_Cons prefixI)
    moreover have "length pat \<le> length ((x # xs) @ butlast pat)"
      by simp
    ultimately have "prefix pat ((x # xs) @ butlast pat)"
      using whole by (rule prefix_length_prefix [rotated])
    then have "sublist pat ((x # xs) @ butlast pat)"
      by (rule prefix_imp_sublist)
    with Cons.prems show False by simp
  qed
  moreover have "\<not> sublist pat (xs @ butlast pat)"
    using Cons.prems by (auto simp: sublist_Cons_right)
  ultimately show ?case
    using Cons.IH by simp
qed

lemma findSub_absent: "\<not> sublist pat s \<Longrightarrow> findSub pat s = None"
  by (induction s) (auto simp: sublist_Cons_right)

lemma multipartBody_afterBoundary:
  "multipartBody boundary parts = ''--'' @ boundary @ afterBoundary boundary parts"
  by (induction parts) (simp_all add: multipartBody_def)

lemma collectParts_afterBoundary:
  assumes "\<forall>p\<in>set parts. \<not> sublist (''--'' @ boundary) (p @ CRLF @ butlast (''--'' @ boundary))"
    and "drop start buffer = drop 2 (afterBoundary boundary parts)"
  shows "collectParts buffer (''--'' @ boundary) start = parts"
  using assms
proof (induction parts arbitrary: start)
  case Nil
  then have rest: "drop start buffer = CRLF"
    by (simp add: CRLF_def)
  then have "start < length buffer"
    by (metis drop_eq_Nil2 CRLF_def list.distinct(1) not_le)
  moreover have "\<not> sublist (''--'' @ boundary) CRLF"
    by (auto simp: CRLF_def sublist_Cons_right prefix_Cons)
  then have "indexOf buffer (''--'' @ boundary) start = None"
    by (simp add: indexOf_def rest findSub_absent del: append.simps)
  ultimately show ?case
    by (subst collectParts.simps) (simp del: append.simps)
next
  case (Cons p parts)
  let ?bb = "''--'' @ boundary"
  from Cons.prems(2) have rest: "drop start buffer = (p @ CRLF) @ ?bb @ afterBoundary boundary parts"
    by (simp add: CRLF_def)
  then have "drop start buffer \<noteq> []"
    by simp
  then have less: "start < length buffer"
    by simp
  have "\<not> sublist ?bb ((p @ CRLF) @ butlast ?bb)"
    using Cons.prems(1) by simp
  then have "findSub ?bb ((p @ CRLF) @ ?bb @ afterBoundary boundary parts)
      = Some (p @ CRLF, afterBoundary boundary parts)"
    by (intro findSub_first) simp_all
  then have next_boundary: "indexOf buffer ?bb start = Some (start + length p + 2)"
    unfolding indexOf_def rest by (simp add: CRLF_def)
  have part: "slice buffer start (start + length p + 2 - 2) = p"
    by (simp add: slice_def rest)
  define lead where "lead = (p @ CRLF) @ ?bb"
  have lead_length: "length lead = length p + 2 + length ?bb"
    by (simp add: lead_def CRLF_def)
  have rest': "drop start buffer = lead @ afterBoundary boundary parts"
    by (simp add: rest lead_def)
  have "drop (start + length p + 2 + length ?bb + 2) buffer
      = drop (length lead + 2) (drop start buffer)"
    unfolding lead_length drop_drop by (simp add: add.commute add.left_commute)
  also have "\<dots> = drop 2 (afterBoundary boundary parts)"
    unfolding rest' by simp
  finally have "collectParts buffer ?bb (start + length p + 2 + length ?bb + 2) = parts"
    using Cons.prems(1) by (intro Cons.IH) simp_all
  with less next_boundary part show ?case
    by (subst collectParts.simps) (simp del: append.simps)
qed

lemma collectParts_multipartBody:
  assumes "\<forall>p\<in>set parts. \<not> sublist (''--'' @ boundary) (p @ CRLF @ butlast (''--'' @ boundary))"
  shows "collectParts (multipartBody boundary parts) (''--'' @ boundary)
           (firstStart (multipartBody boundary parts) (''--'' @ boundary)) = parts"
proof -
  let ?bb = "''--'' @ boundary"
  have "indexOf (multipartBody boundary parts) ?bb 0 = Some 0"
    by (simp add: indexOf_def multipartBody_afterBoundary)
  then have "firstStart (multipartBody boundary parts) ?bb = length ?bb + 2"
    by (simp add: firstStart_def)
  moreover have "drop (length ?bb + 2) (multipartBody boundary parts)
      = drop 2 (afterBoundary boundary parts)"
    by (simp add: multipartBody_afterBoundary)
  ultimately show ?thesis
    using assms by (simp only: collectParts_afterBoundary)
qed

lemma processPart_file:
  assumes "findSub (CRLF @ CRLF) part = Some (rawHeaders, content)"
    and "filenameMatch rawHeaders = Some filename" "filename \<noteq> []"
  shows "processPart uploadDir now part st =
     st\<lparr>fs := (fs st)(uploadPath uploadDir now (basename filename) \<mapsto>
              \<lparr>bytes = content, mtimeMs = now\<rparr>),
        FILES := setObj (propertyKey (nameMatch rawHeaders))
                   \<lparr>fd_name = basename filename, fd_type = contentTypeMatch rawHeaders,
                    fd_size = length content,
                    tmp_name = uploadPath uploadDir now (basename filename), fd_error = 0\<rparr>
                   (FILES st)\<rparr>"
  using assms by (simp add: processPart_def Let_def writeFileSync_def)

lemma getProp_setObj: "getProp (setObj k v ob) k = Some v"
  by (simp add: getProp_def setObj_def)

lemma enumerate_split:
  assumes "i < length parts"
  shows "enumerate 0 parts
     = take i (enumerate 0 parts) @ (i, parts ! i) # drop (Suc i) (enumerate 0 parts)"
proof -
  from assms have "i < length (enumerate 0 parts)"
    by simp
  from id_take_nth_drop [OF this] assms show ?thesis
    by (simp add: nth_enumerate_eq)
qed

lemma stateAfterPart_step:
  assumes "i < length parts"
  shows "stateAfterPart uploadDir clock parts st i =
     processPart uploadDir (clock i) (parts ! i)
       (foldl (processIndexed uploadDir clock) st (take i (enumerate 0 parts)))"
proof -
  from assms have "take (Suc i) (enumerate 0 parts) = take i (enumerate 0 parts) @ [(i, parts ! i)]"
    by (simp add: take_Suc_conv_app_nth nth_enumerate_eq)
  then show ?thesis
    by (simp add: stateAfterPart_def processIndexed_def)
qed

lemma multipart_file_part_persisted_aux:
  assumes "\<forall>p\<in>set parts. \<not> sublist (''--'' @ boundary) (p @ CRLF @ butlast (''--'' @ boundary))"
    and "i < length parts"
    and "parts ! i = rawHeaders @ CRLF @ CRLF @ content"
    and "\<not> sublist (CRLF @ CRLF) (rawHeaders @ butlast (CRLF @ CRLF))"
    and "filenameMatch rawHeaders = Some filename" and "filename \<noteq> []"
  shows "parseMultipartBody uploadDir clock (multipartBody boundary parts) boundary st
           = foldl (processIndexed uploadDir clock) (stateAfterPart uploadDir clock parts st i)
               (drop (Suc i) (enumerate 0 parts))
       \<and> fs (stateAfterPart uploadDir clock parts st i)
             (uploadPath uploadDir (clock i) (basename filename))
           = Some \<lparr>bytes = content, mtimeMs = clock i\<rparr>
       \<and> getProp (FILES (stateAfterPart uploadDir clock parts st i))
             (propertyKey (nameMatch rawHeaders))
           = Some \<lparr>fd_name = basename filename, fd_type = contentTypeMatch rawHeaders,
                   fd_size = length content,
                   tmp_name = uploadPath uploadDir (clock i) (basename filename),
                   fd_error = 0\<rparr>"
proof -
  have "parseMultipartBody uploadDir clock (multipartBody boundary parts) boundary st
      = foldl (processIndexed uploadDir clock) st (enumerate 0 parts)"
    by (simp only: parseMultipartBody_def Let_def collectParts_multipartBody [OF assms(1)])
  also have "\<dots> = foldl (processIndexed uploadDir clock) st
      (take (Suc i) (enumerate 0 parts) @ drop (Suc i) (enumerate 0 parts))"
    by simp
  also have "\<dots> = foldl (processIndexed uploadDir clock) (stateAfterPart uploadDir clock parts st i)
      (drop (Suc i) (enumerate 0 parts))"
    by (simp only: foldl_append stateAfterPart_def)
  finally have run: "parseMultipartBody uploadDir clock (multipartBody boundary parts) boundary st
      = foldl (processIndexed uploadDir clock) (stateAfterPart uploadDir clock parts st i)
          (drop (Suc i) (enumerate 0 parts))" .
  have "CRLF @ CRLF \<noteq> []"
    by (simp add: CRLF_def)
  from findSub_first [OF this assms(4), of content]
  have "findSub (CRLF @ CRLF) (parts ! i) = Some (rawHeaders, content)"
    by (simp add: assms(3))
  from processPart_file [OF this assms(5,6)] stateAfterPart_step [OF assms(2)]
  have "fs (stateAfterPart uploadDir clock parts st i)
          (uploadPath uploadDir (clock i) (basename filename))
        = Some \<lparr>bytes = content, mtimeMs = clock i\<rparr>"
    and "getProp (FILES (stateAfterPart uploadDir clock parts st i))
          (propertyKey (nameMatch rawHeaders))
        = Some \<lparr>fd_name = basename filename, fd_type = contentTypeMatch rawHeaders,
                fd_size = length content,
                tmp_name = uploadPath uploadDir (clock i) (basename filename),
                fd_error = 0\<rparr>"
    by (simp_all add: getProp_setObj)
  with run show ?thesis
    by simp
qed

text \<open>
  Bodies whose parts do not contain the delimiter.  Take in such a body a part whose header
  block, ended by the part's first CRLFCRLF, carries a non-empty filename.  Parsing handles
  the parts in order; when this part has been handled, the file at the generated upload path
  holds exactly the part's content, and the descriptor recorded under the part's name has
  that path and, as size, the number of those bytes.
\<close>

lemma multipart_file_part_persisted:
  assumes "\<forall>p\<in>set parts. \<not> sublist (''--'' @ boundary) (p @ CRLF @ butlast (''--'' @ boundary))"
    and "i < length parts"
    and "parts ! i = rawHeaders @ CRLF @ CRLF @ content"
    and "\<not> sublist (CRLF @ CRLF) (rawHeaders @ butlast (CRLF @ CRLF))"
    and "filenameMatch rawHeaders = Some filename" and "filename \<noteq> []"
  shows "parseMultipartBody uploadDir clock (multipartBody boundary parts) boundary st
           = foldl (processIndexed uploadDir clock) (stateAfterPart uploadDir clock parts st i)
               (drop (Suc i) (enumerate 0 parts))
       \<and> fs (stateAfterPart uploadDir clock parts st i)
             (uploadPath uploadDir (clock i) (basename filename))
           = Some \<lparr>bytes = content, mtimeMs = clock i\<rparr>
       \<and> getProp (FILES (stateAfterPart uploadDir clock parts st i))
             (propertyKey (nameMatch rawHeaders))
           = Some \<lparr>fd_name = basename filename, fd_type = contentTypeMatch rawHeaders,
                   fd_size = length content,
                   tmp_name = uploadPath uploadDir (clock i) (basename filename),
                   fd_error = 0\<rparr>"
  using assms by (rule multipart_file_part_persisted_aux)

lemma multipart_file_part_persisted_example:
  "fs (parseMultipartBody ''/lib/uploads'' (\<lambda>i. 1700 + i)
         (multipartBody ''XyZ'' [fooPart, filePart]) ''XyZ'' initial)
      ''/lib/uploads/1701_test.txt''
     = Some \<lparr>bytes = ''hello'', mtimeMs = 1701\<rparr> \<and>
   getProp (FILES (parseMultipartBody ''/lib/uploads'' (\<lambda>i. 1700 + i)
         (multipartBody ''XyZ'' [fooPart, filePart]) ''XyZ'' initial)) ''file''
     = Some \<lparr>fd_name = ''test.txt'', fd_type = Some ''text/plain'', fd_size = 5,
             tmp_name = ''/lib/uploads/1701_test.txt'', fd_error = 0\<rparr>"
proof -
  have clean: "\<forall>p\<in>set [fooPart, filePart].
      \<not> sublist (''--'' @ ''XyZ'') (p @ CRLF @ butlast (''--'' @ ''XyZ''))"
    by code_simp
  have index: "1 < length [fooPart, filePart]"
    by simp
  have part: "[fooPart, filePart] ! 1 = fileHeaders @ CRLF @ CRLF @ ''hello''"
    by (simp add: filePart_def fileHeaders_def)
  have first_sep: "\<not> sublist (CRLF @ CRLF) (fileHeaders @ butlast (CRLF @ CRLF))"
    by code_simp
  have filename: "filenameMatch fileHeaders = Some ''test.txt''"
    by code_simp
  have nonempty: "''test.txt'' \<noteq> []"
    by simp
  have path: "uploadPath ''/lib/uploads'' 1701 ''test.txt'' = ''/lib/uploads/1701_test.txt''"
    by code_simp
  have key: "propertyKey (nameMatch fileHeaders) = ''file''"
    by code_simp
  have type: "contentTypeMatch fileHeaders = Some ''text/plain''"
    by code_simp
  have name: "basename ''test.txt'' = ''test.txt''"
    by code_simp
  have last: "drop (Suc 1) (enumerate 0 [fooPart, filePart]) = []"
    by simp
  from multipart_file_part_persisted [OF clean index part first_sep filename nonempty,
      of "''/lib/uploads''" "\<lambda>i. 1700 + i" initial]
  show ?thesis
    by (simp add: last path key type name)
qed

text \<open>The file and the descriptor stay as they are to the end of parsing when no later part
  of the body writes to the same generated path or records under the same name.\<close>

lemma drop_enumerate:
  assumes "k \<le> length xs"
  shows "drop k (enumerate 0 xs) = enumerate k (drop k xs)"
proof -
  have "enumerate 0 (take k xs @ drop k xs) = enumerate 0 (take k xs) @ enumerate k (drop k xs)"
    using assms by (simp only: enumerate_append_eq length_take) simp
  then have "drop k (enumerate 0 xs) = drop k (enumerate 0 (take k xs) @ enumerate k (drop k xs))"
    by simp
  also have "\<dots> = enumerate k (drop k xs)"
    using assms by simp
  finally show ?thesis .
qed

lemma foldl_processIndexed_keeps:
  assumes "\<forall>ip\<in>set ips. \<forall>s.
      fs (processPart uploadDir (clock (fst ip)) (snd ip) s) path = fs s path
      \<and> getProp (FILES (processPart uploadDir (clock (fst ip)) (snd ip) s)) key
          = getProp (FILES s) key"
  shows "fs (foldl (processIndexed uploadDir clock) st ips) path = fs st path
       \<and> getProp (FILES (foldl (processIndexed uploadDir clock) st ips)) key
           = getProp (FILES st) key"
  using assms by (induction ips arbitrary: st) (simp_all add: processIndexed_def)

lemma multipart_file_part_kept:
  assumes "\<forall>p\<in>set parts. \<not> sublist (''--'' @ boundary) (p @ CRLF @ butlast (''--'' @ boundary))"
    and "i < length parts"
    and "parts ! i = rawHeaders @ CRLF @ CRLF @ content"
    and "\<not> sublist (CRLF @ CRLF) (rawHeaders @ butlast (CRLF @ CRLF))"
    and "filenameMatch rawHeaders = Some filename" and "filename \<noteq> []"
    and later: "\<forall>j s. i < j \<and> j < length parts \<longrightarrow>
      fs (processPart uploadDir (clock j) (parts ! j) s)
           (uploadPath uploadDir (clock i) (basename filename))
        = fs s (uploadPath uploadDir (clock i) (basename filename))
      \<and> getProp (FILES (processPart uploadDir (clock j) (parts ! j) s))
           (propertyKey (nameMatch rawHeaders))
        = getProp (FILES s) (propertyKey (nameMatch rawHeaders))"
  shows "fs (parseMultipartBody uploadDir clock (multipartBody boundary parts) boundary st)
             (uploadPath uploadDir (clock i) (basename filename))
           = Some \<lparr>bytes = content, mtimeMs = clock i\<rparr>
       \<and> getProp (FILES (parseMultipartBody uploadDir clock (multipartBody boundary parts) boundary st))
             (propertyKey (nameMatch rawHeaders))
           = Some \<lparr>fd_name = basename filename, fd_type = contentTypeMatch rawHeaders,
                   fd_size = length content,
                   tmp_name = uploadPath uploadDir (clock i) (basename filename),
                   fd_error = 0\<rparr>"
proof -
  note handled = multipart_file_part_persisted_aux [OF assms(1-6), of uploadDir clock st]
  have "drop (Suc i) (enumerate 0 parts) = enumerate (Suc i) (drop (Suc i) parts)"
    using assms(2) by (intro drop_enumerate) simp
  then have "\<forall>ip\<in>set (drop (Suc i) (enumerate 0 parts)).
      i < fst ip \<and> fst ip < length parts \<and> snd ip = parts ! fst ip"
    using assms(2) by (auto simp: in_set_enumerate_eq)
  with later have "\<forall>ip\<in>set (drop (Suc i) (enumerate 0 parts)). \<forall>s.
      fs (processPart uploadDir (clock (fst ip)) (snd ip) s)
           (uploadPath uploadDir (clock i) (basename filename))
        = fs s (uploadPath uploadDir (clock i) (basename filename))
      \<and> getProp (FILES (processPart uploadDir (clock (fst ip)) (snd ip) s))
           (propertyKey (nameMatch rawHeaders))
        = getProp (FILES s) (propertyKey (nameMatch rawHeaders))"
    by simp
  from foldl_processIndexed_keeps [OF this] handled show ?thesis
    by simp
qed

subsection \<open>One cache file for two scripts\<close>

text \<open>
  The templates \<^verbatim>\<open>/www/>.jss\<close> and \<^verbatim>\<open>/www/?.jss\<close> have one cache path.  Once the first has
  been compiled, a lookup for the second finds that cache file, not older than its own
  source, and returns the script compiled from the other template.
\<close>

lemma collision_cache_paths:
  "getCachePath ''/lib/jss_cache'' ''/www/>.jss'' = ''/lib/jss_cache/L3d3dy8_Lmpzcw__.cache.js''"
  "getCachePath ''/lib/jss_cache'' ''/www/?.jss'' = ''/lib/jss_cache/L3d3dy8_Lmpzcw__.cache.js''"
  by (simp_all add: getCachePath_def cacheHash_def Let_def b64_def b64alphabet_def)

lemma cache_collision_first_lookup:
  \<open>cachedFullScript boomNode ''/lib/jss_cache'' ''/www/>.jss'' 7 twoScripts
     = Inr (''echo("one")'', afterFirstScript)\<close>
proof -
  have compiled: \<open>join [LF] (parseJSSBlocks ''<? echo("one") ?>'') = ''echo("one")''\<close>
    by (simp add: parseJSSBlocks.simps trim_def trimStart_def trimEnd_def isSpace_def)
  show ?thesis
    by (simp add: cachedFullScript_def Let_def twoScripts_def initial_def afterFirstScript_def
        collision_cache_paths compiled)
qed

lemma cache_collision_runs_other_script:
  \<open>cachedFullScript boomNode ''/lib/jss_cache'' ''/www/?.jss'' 8 afterFirstScript
     = Inr (''echo("one")'', afterFirstScript)\<close>
  by (simp add: cachedFullScript_def Let_def twoScripts_def initial_def afterFirstScript_def
      writeFileSync_def collision_cache_paths)

subsection \<open>File parts that are not persisted as sent\<close>

lemma getProp_setObj_other: "k \<noteq> k' \<Longrightarrow> getProp (setObj k v ob) k' = getProp ob k'"
  by (auto simp: getProp_def setObj_def)

lemma uploadHeaders_matches:
  "filenameMatch (uploadHeaders ''a'' ''x.txt'') = Some ''x.txt''"
  "filenameMatch (uploadHeaders ''b'' ''x.txt'') = Some ''x.txt''"
  "propertyKey (nameMatch (uploadHeaders ''a'' ''x.txt'')) = ''a''"
  "propertyKey (nameMatch (uploadHeaders ''b'' ''x.txt'')) = ''b''"
  "contentTypeMatch (uploadHeaders ''a'' ''x.txt'') = Some ''text/plain''"
  "\<not> sublist (CRLF @ CRLF) (uploadHeaders ''a'' ''x.txt'' @ butlast (CRLF @ CRLF))"
  "\<not> sublist (CRLF @ CRLF) (uploadHeaders ''b'' ''x.txt'' @ butlast (CRLF @ CRLF))"
  "uploadPath ''/lib/uploads'' 1700 ''x.txt'' = ''/lib/uploads/1700_x.txt''"
  "basename ''x.txt'' = ''x.txt''"
  by code_simp+

text \<open>
  A body with the file fields \<^verbatim>\<open>a\<close> and \<^verbatim>\<open>b\<close>, both named \<^verbatim>\<open>x.txt\<close>, handled while
  \<^verbatim>\<open>Date.now()\<close> shows one value.  Both parts get the upload path \<^verbatim>\<open>1700_x.txt\<close>.  In the
  state \<^verbatim>\<open>parseMultipartBody\<close> returns, the descriptor of \<^verbatim>\<open>a\<close> names that path with size 4,
  the length of its content \<^verbatim>\<open>AAAA\<close>, and the file at that path holds \<^verbatim>\<open>BB\<close>, the content of
  the other part.
\<close>

lemma parseMultipartBody_same_name_overwrites:
  "getProp (FILES (parseMultipartBody ''/lib/uploads'' (\<lambda>i. 1700)
       (multipartBody ''XyZ'' [uploadA, uploadB]) ''XyZ'' initial)) ''a''
     = Some \<lparr>fd_name = ''x.txt'', fd_type = Some ''text/plain'', fd_size = 4,
             tmp_name = ''/lib/uploads/1700_x.txt'', fd_error = 0\<rparr> \<and>
   fs (parseMultipartBody ''/lib/uploads'' (\<lambda>i. 1700)
       (multipartBody ''XyZ'' [uploadA, uploadB]) ''XyZ'' initial) ''/lib/uploads/1700_x.txt''
     = Some \<lparr>bytes = ''BB'', mtimeMs = 1700\<rparr>"
proof -
  let ?parts = "[uploadA, uploadB]"
  let ?after = "stateAfterPart ''/lib/uploads'' (\<lambda>i. 1700) ?parts initial"
  have clean: "\<forall>p\<in>set ?parts.
      \<not> sublist (''--'' @ ''XyZ'') (p @ CRLF @ butlast (''--'' @ ''XyZ''))"
    by code_simp
  have partA: "?parts ! 0 = uploadHeaders ''a'' ''x.txt'' @ CRLF @ CRLF @ ''AAAA''"
    by (simp add: uploadA_def)
  have partB: "?parts ! 1 = uploadHeaders ''b'' ''x.txt'' @ CRLF @ CRLF @ ''BB''"
    by (simp add: uploadB_def)
  have named: "''x.txt'' \<noteq> []"
    by simp
  from multipart_file_part_persisted_aux [OF clean _ partA uploadHeaders_matches(6)
      uploadHeaders_matches(1) named, of "''/lib/uploads''" "\<lambda>i. 1700" initial]
  have descA: "getProp (FILES (?after 0)) ''a''
      = Some \<lparr>fd_name = ''x.txt'', fd_type = Some ''text/plain'', fd_size = 4,
              tmp_name = ''/lib/uploads/1700_x.txt'', fd_error = 0\<rparr>"
    by (simp add: uploadHeaders_matches)
  from multipart_file_part_persisted_aux [OF clean _ partB uploadHeaders_matches(7)
      uploadHeaders_matches(2) named, of "''/lib/uploads''" "\<lambda>i. 1700" initial]
  have run: "parseMultipartBody ''/lib/uploads'' (\<lambda>i. 1700)
        (multipartBody ''XyZ'' ?parts) ''XyZ'' initial = ?after 1"
    and fileB: "fs (?after 1) ''/lib/uploads/1700_x.txt'' = Some \<lparr>bytes = ''BB'', mtimeMs = 1700\<rparr>"
    by (simp_all add: uploadHeaders_matches)
  have "CRLF @ CRLF \<noteq> []"
    by (simp add: CRLF_def)
  from findSub_first [OF this uploadHeaders_matches(7), of "''BB''"]
  have "findSub (CRLF @ CRLF) uploadB = Some (uploadHeaders ''b'' ''x.txt'', ''BB'')"
    by (simp add: uploadB_def)
  from processPart_file [OF this uploadHeaders_matches(2) named]
  have stepB: "getProp (FILES (processPart ''/lib/uploads'' 1700 uploadB s)) ''a''
      = getProp (FILES s) ''a''" for s
    by (simp add: uploadHeaders_matches getProp_setObj_other)
  have "?after 1 = processPart ''/lib/uploads'' 1700 uploadB (?after 0)"
    by (simp add: stateAfterPart_def processIndexed_def)
  with stepB descA have "getProp (FILES (?after 1)) ''a''
      = Some \<lparr>fd_name = ''x.txt'', fd_type = Some ''text/plain'', fd_size = 4,
              tmp_name = ''/lib/uploads/1700_x.txt'', fd_error = 0\<rparr>"
    by simp
  with run fileB show ?thesis
    by simp
qed

text \<open>One turn of the loop, whatever the two bytes before the delimiter are; and its end.\<close>

lemma collectParts_step:
  assumes "drop start buffer = p @ two @ bb @ rest" "length two = 2" "bb \<noteq> []"
    and "\<not> sublist bb ((p @ two) @ butlast bb)"
  shows "collectParts buffer bb start
       = p # collectParts buffer bb (start + length p + 2 + length bb + 2)"
    and "drop (start + length p + 2 + length bb + 2) buffer = drop 2 rest"
proof -
  from assms(1,3) have "drop start buffer \<noteq> []"
    by simp
  then have less: "start < length buffer"
    by simp
  have rest: "drop start buffer = (p @ two) @ bb @ rest"
    using assms(1) by simp
  have "findSub bb ((p @ two) @ bb @ rest) = Some (p @ two, rest)"
    using assms(3,4) by (rule findSub_first)
  then have next_boundary: "indexOf buffer bb start = Some (start + length p + 2)"
    unfolding indexOf_def rest using assms(2) by simp
  have part: "slice buffer start (start + length p + 2 - 2) = p"
    by (simp add: slice_def assms(1))
  from less next_boundary part show "collectParts buffer bb start
       = p # collectParts buffer bb (start + length p + 2 + length bb + 2)"
    by (subst collectParts.simps) simp
  define lead where "lead = (p @ two) @ bb"
  have lead_length: "length lead = length p + 2 + length bb"
    by (simp add: lead_def assms(2))
  have rest': "drop start buffer = lead @ rest"
    by (simp add: rest lead_def)
  have "drop (start + length p + 2 + length bb + 2) buffer
      = drop (length lead + 2) (drop start buffer)"
    unfolding lead_length drop_drop by (simp add: add.commute add.left_commute)
  also have "\<dots> = drop 2 rest"
    unfolding rest' by simp
  finally show "drop (start + length p + 2 + length bb + 2) buffer = drop 2 rest" .
qed

lemma collectParts_end:
  assumes "drop start buffer = rest" "\<not> sublist bb rest"
  shows "collectParts buffer bb start = []"
  using assms by (subst collectParts.simps) (simp add: indexOf_def findSub_absent)

lemma firstStart_at_delimiter:
  assumes "bb \<noteq> []" "\<not> sublist bb (butlast bb)"
  shows "firstStart (bb @ rest) bb = length bb + 2"
proof -
  from assms have "findSub bb ([] @ bb @ rest) = Some ([], rest)"
    by (intro findSub_first) simp_all
  then show ?thesis
    by (simp add: firstStart_def indexOf_def)
qed

lemma uploadDashes_facts:
  "\<not> sublist ''--XyZ'' (butlast ''--XyZ'')"
  "\<not> sublist ''--XyZ'' (((uploadHeaders ''file'' ''test.txt'' @ CRLF @ CRLF @ ''hel'') @ ''lo'') @ butlast ''--XyZ'')"
  "\<not> sublist ''--XyZ'' ((''rld'' @ CRLF) @ butlast ''--XyZ'')"
  "\<not> sublist ''--XyZ'' CRLF"
  "\<not> sublist (CRLF @ CRLF) (uploadHeaders ''file'' ''test.txt'' @ butlast (CRLF @ CRLF))"
  "\<not> sublist (CRLF @ CRLF) ''rld''"
  "filenameMatch (uploadHeaders ''file'' ''test.txt'') = Some ''test.txt''"
  "propertyKey (nameMatch (uploadHeaders ''file'' ''test.txt'')) = ''file''"
  "contentTypeMatch (uploadHeaders ''file'' ''test.txt'') = Some ''text/plain''"
  "uploadPath ''/lib/uploads'' 1700 ''test.txt'' = ''/lib/uploads/1700_test.txt''"
  "basename ''test.txt'' = ''test.txt''"
  by code_simp+

text \<open>
  C7: a body with one file part, the field \<^verbatim>\<open>file\<close> named \<^verbatim>\<open>test.txt\<close> with the content
  \<^verbatim>\<open>hello--XyZworld\<close>, sent with the boundary \<^verbatim>\<open>XyZ\<close>.  The text \<^verbatim>\<open>--XyZ\<close> inside the content
  does not start a line and is no delimiter; the loop takes it for one.  In the state
  \<^verbatim>\<open>parseMultipartBody\<close> returns, the file at the generated upload path holds \<^verbatim>\<open>hel\<close>, not the
  15 bytes of the content, and the descriptor of \<^verbatim>\<open>file\<close> has the size 3.
\<close>

theorem parseMultipartBody_delimiter_in_content:
  "fs (parseMultipartBody ''/lib/uploads'' (\<lambda>i. 1700)
       (multipartBody ''XyZ'' [uploadDashes]) ''XyZ'' initial) ''/lib/uploads/1700_test.txt''
     = Some \<lparr>bytes = ''hel'', mtimeMs = 1700\<rparr> \<and>
   getProp (FILES (parseMultipartBody ''/lib/uploads'' (\<lambda>i. 1700)
       (multipartBody ''XyZ'' [uploadDashes]) ''XyZ'' initial)) ''file''
     = Some \<lparr>fd_name = ''test.txt'', fd_type = Some ''text/plain'', fd_size = 3,
             tmp_name = ''/lib/uploads/1700_test.txt'', fd_error = 0\<rparr>"
proof -
  let ?bb = "''--XyZ''"
  let ?headers = "uploadHeaders ''file'' ''test.txt''"
  let ?p = "?headers @ CRLF @ CRLF @ ''hel''"
  define buffer where "buffer = multipartBody ''XyZ'' [uploadDashes]"
  define tail1 where "tail1 = ''world'' @ CRLF @ ?bb @ ''--'' @ CRLF"
  have buffer: "buffer = ?bb @ CRLF @ ?p @ ''lo'' @ ?bb @ tail1"
    by (simp add: buffer_def multipartBody_def uploadDashes_def tail1_def)
  have nonempty: "?bb \<noteq> []"
    by simp
  have first: "firstStart buffer ?bb = 7"
    unfolding buffer using firstStart_at_delimiter [OF nonempty uploadDashes_facts(1)]
    by simp
  have "drop 7 buffer = ?p @ ''lo'' @ ?bb @ tail1"
    by (simp add: buffer CRLF_def)
  from collectParts_step [OF this _ nonempty uploadDashes_facts(2)]
  have one: "collectParts buffer ?bb 7 = ?p # collectParts buffer ?bb (7 + length ?p + 2 + 5 + 2)"
    and "drop (7 + length ?p + 2 + 5 + 2) buffer = ''rld'' @ CRLF @ ?bb @ ''--'' @ CRLF"
    by (simp_all add: tail1_def)
  from collectParts_step [OF this(2) _ nonempty uploadDashes_facts(3)]
  have two: "collectParts buffer ?bb (7 + length ?p + 2 + 5 + 2)
        = ''rld'' # collectParts buffer ?bb (7 + length ?p + 2 + 5 + 2 + 3 + 2 + 5 + 2)"
    and "drop (7 + length ?p + 2 + 5 + 2 + 3 + 2 + 5 + 2) buffer = CRLF"
    by (simp_all add: CRLF_def)
  from collectParts_end [OF this(2) uploadDashes_facts(4)]
  have "collectParts buffer ?bb (7 + length ?p + 2 + 5 + 2 + 3 + 2 + 5 + 2) = []" .
  with one two have parts: "collectParts buffer ?bb 7 = [?p, ''rld'']"
    by simp
  have "CRLF @ CRLF \<noteq> []"
    by (simp add: CRLF_def)
  from findSub_first [OF this uploadDashes_facts(5), of "''hel''"]
  have "findSub (CRLF @ CRLF) ?p = Some (?headers, ''hel'')"
    by simp
  note written = processPart_file [OF this uploadDashes_facts(7), of "''/lib/uploads''" 1700 initial]
  have skipped: "processPart ''/lib/uploads'' 1700 ''rld'' s = s" for s
    by (simp add: processPart_def findSub_absent [OF uploadDashes_facts(6)])
  have "parseMultipartBody ''/lib/uploads'' (\<lambda>i. 1700) buffer ''XyZ'' initial
      = processPart ''/lib/uploads'' 1700 ?p initial"
    by (simp add: parseMultipartBody_def first parts processIndexed_def skipped)
  then show ?thesis
    unfolding buffer_def
    by (simp add: written uploadDashes_facts getProp_setObj del: append.simps)
qed

end
